theory Spec2Isabelle
  imports Complex_Main "HOL-Library.Log_Nat"
begin

section \<open>Python values: exceptions, floats, numbers\<close>

text \<open>
  Every \<^verbatim>\<open>raise\<close> of the source, and every exception the Python runtime raises in the
  modelled code, is a value of \<open>exn\<close>; a fallible function returns \<open>exn + 'a\<close>.
  The four stages of the rollout name the explicit
  \<^verbatim>\<open>raise Exception("Oshibki sozdaniya ...: {errors}")\<close> of each create method.
\<close>

datatype stage = Campaigns | AdGroups | Keywords | Ads

datatype exn =
    ZeroDivisionError
  | OverflowError
  | ValueError
  | TypeError
  | AttributeError
  | IndexError
  | KeyError string
  | TransportError
  | HTTPStatusError
  | JSONDecodeError
  | ApiError
  | UnexpectedStructure
  | CreationErrors stage "string list"

definition then_do :: "exn + 'a \<Rightarrow> ('a \<Rightarrow> exn + 'b) \<Rightarrow> exn + 'b" where
  "then_do r f = (case r of Inl e \<Rightarrow> Inl e | Inr v \<Rightarrow> f v)"

subsection \<open>Binary64 floats\<close>

text \<open>
  A Python float is an IEEE 754 binary64 value: a finite value is kept as the rational it
  denotes, and the results of the arithmetic are the exact rational results rounded to
  nearest, ties to even, to 53 significant bits (exponent of the last place at least
  \<open>-1074\<close>, overflow to infinity from \<open>2 ^ 1024\<close> on). The two zeros are identified:
  Python's \<^verbatim>\<open>==\<close> identifies them too, and both make a division raise.
\<close>

datatype pyfloat = Finite rat | PosInf | NegInf | NaN

definition round_half_even :: "rat \<Rightarrow> int" where
  "round_half_even x = (let f = \<lfloor>x\<rfloor>; d = x - of_int f in
     if d < 1 / 2 then f else if 1 / 2 < d then f + 1 else if even f then f else f + 1)"

text \<open>For \<open>0 < x\<close>: the \<open>e\<close> with \<open>2 powi e \<le> x < 2 powi (e + 1)\<close>.\<close>

definition ilog2 :: "rat \<Rightarrow> int" where
  "ilog2 x = (if 1 \<le> x then bitlen \<lfloor>x\<rfloor> - 1 else - bitlen (\<lceil>1 / x\<rceil> - 1))"

definition ulp_exp :: "rat \<Rightarrow> int" where
  "ulp_exp x = max (ilog2 x - 52) (- 1074)"

definition round_pos :: "rat \<Rightarrow> rat" where
  "round_pos x = of_int (round_half_even (x / 2 powi ulp_exp x)) * 2 powi ulp_exp x"

definition fl :: "rat \<Rightarrow> pyfloat" where
  "fl x = (if x = 0 then Finite 0
     else if 2 ^ 1024 \<le> round_pos \<bar>x\<bar> then (if x < 0 then NegInf else PosInf)
     else Finite (if x < 0 then - round_pos \<bar>x\<bar> else round_pos \<bar>x\<bar>))"

fun float_neg :: "pyfloat \<Rightarrow> pyfloat" where
  "float_neg (Finite a) = Finite (- a)"
| "float_neg PosInf = NegInf"
| "float_neg NegInf = PosInf"
| "float_neg NaN = NaN"

fun float_mul :: "pyfloat \<Rightarrow> pyfloat \<Rightarrow> pyfloat" where
  "float_mul (Finite a) (Finite b) = fl (a * b)"
| "float_mul NaN y = NaN"
| "float_mul x NaN = NaN"
| "float_mul (Finite a) PosInf = (if a = 0 then NaN else if a < 0 then NegInf else PosInf)"
| "float_mul (Finite a) NegInf = (if a = 0 then NaN else if a < 0 then PosInf else NegInf)"
| "float_mul PosInf (Finite b) = (if b = 0 then NaN else if b < 0 then NegInf else PosInf)"
| "float_mul NegInf (Finite b) = (if b = 0 then NaN else if b < 0 then PosInf else NegInf)"
| "float_mul PosInf PosInf = PosInf"
| "float_mul PosInf NegInf = NegInf"
| "float_mul NegInf PosInf = NegInf"
| "float_mul NegInf NegInf = PosInf"

fun float_sub :: "pyfloat \<Rightarrow> pyfloat \<Rightarrow> pyfloat" where
  "float_sub (Finite a) (Finite b) = fl (a - b)"
| "float_sub NaN y = NaN"
| "float_sub x NaN = NaN"
| "float_sub (Finite a) PosInf = NegInf"
| "float_sub (Finite a) NegInf = PosInf"
| "float_sub PosInf (Finite b) = PosInf"
| "float_sub NegInf (Finite b) = NegInf"
| "float_sub PosInf PosInf = NaN"
| "float_sub PosInf NegInf = PosInf"
| "float_sub NegInf PosInf = NegInf"
| "float_sub NegInf NegInf = NaN"

text \<open>
  \<^verbatim>\<open>x / y\<close> on floats: CPython tests the divisor against zero first and raises
  \<^verbatim>\<open>ZeroDivisionError\<close>, whatever the dividend; an overflowing quotient is an infinity.
\<close>

fun float_quot :: "pyfloat \<Rightarrow> pyfloat \<Rightarrow> pyfloat" where
  "float_quot (Finite a) (Finite b) = fl (a / b)"
| "float_quot NaN y = NaN"
| "float_quot x NaN = NaN"
| "float_quot (Finite a) PosInf = Finite 0"
| "float_quot (Finite a) NegInf = Finite 0"
| "float_quot PosInf (Finite b) = (if b < 0 then NegInf else PosInf)"
| "float_quot NegInf (Finite b) = (if b < 0 then PosInf else NegInf)"
| "float_quot PosInf PosInf = NaN"
| "float_quot PosInf NegInf = NaN"
| "float_quot NegInf PosInf = NaN"
| "float_quot NegInf NegInf = NaN"

definition float_div :: "pyfloat \<Rightarrow> pyfloat \<Rightarrow> exn + pyfloat" where
  "float_div x y = (if y = Finite 0 then Inl ZeroDivisionError else Inr (float_quot x y))"

subsection \<open>Numbers: unbounded integers and floats\<close>

datatype pynum = PInt int | PFloat pyfloat

text \<open>
  \<^verbatim>\<open>float(n)\<close> of an integer, also the implicit conversion of the integer operand of a
  mixed operation: correctly rounded, \<^verbatim>\<open>OverflowError\<close> when the integer is too large.
\<close>

definition float_of_int :: "int \<Rightarrow> exn + pyfloat" where
  "float_of_int n = (case fl (of_int n) of Finite v \<Rightarrow> Inr (Finite v) | _ \<Rightarrow> Inl OverflowError)"

fun as_float :: "pynum \<Rightarrow> exn + pyfloat" where
  "as_float (PInt n) = float_of_int n"
| "as_float (PFloat x) = Inr x"

fun py_mul :: "pynum \<Rightarrow> pynum \<Rightarrow> exn + pynum" where
  "py_mul (PInt a) (PInt b) = Inr (PInt (a * b))"
| "py_mul x y = then_do (as_float x) (\<lambda>u. then_do (as_float y) (\<lambda>v. Inr (PFloat (float_mul u v))))"

fun py_sub :: "pynum \<Rightarrow> pynum \<Rightarrow> exn + pynum" where
  "py_sub (PInt a) (PInt b) = Inr (PInt (a - b))"
| "py_sub x y = then_do (as_float x) (\<lambda>u. then_do (as_float y) (\<lambda>v. Inr (PFloat (float_sub u v))))"

text \<open>
  True division \<^verbatim>\<open>x / y\<close>. On two integers the exact quotient is rounded once, and a
  quotient too large for a float raises \<^verbatim>\<open>OverflowError\<close>.
\<close>

fun py_truediv :: "pynum \<Rightarrow> pynum \<Rightarrow> exn + pyfloat" where
  "py_truediv (PInt a) (PInt b) =
     (if b = 0 then Inl ZeroDivisionError
      else case fl (of_int a / of_int b) of Finite v \<Rightarrow> Inr (Finite v) | _ \<Rightarrow> Inl OverflowError)"
| "py_truediv x y = then_do (as_float x) (\<lambda>u. then_do (as_float y) (\<lambda>v. float_div u v))"

text \<open>\<^verbatim>\<open>int(x)\<close>: truncation towards zero; infinities and NaN raise.\<close>

fun py_int :: "pynum \<Rightarrow> exn + int" where
  "py_int (PInt n) = Inr n"
| "py_int (PFloat (Finite v)) = Inr (if 0 \<le> v then \<lfloor>v\<rfloor> else \<lceil>v\<rceil>)"
| "py_int (PFloat PosInf) = Inl OverflowError"
| "py_int (PFloat NegInf) = Inl OverflowError"
| "py_int (PFloat NaN) = Inl ValueError"

text \<open>Comparison of numbers is exact, also between an integer and a float; NaN compares false.\<close>

fun py_less :: "pynum \<Rightarrow> pynum \<Rightarrow> bool" where
  "py_less (PInt a) (PInt b) = (a < b)"
| "py_less (PInt a) (PFloat (Finite v)) = (of_int a < v)"
| "py_less (PFloat (Finite u)) (PInt b) = (u < of_int b)"
| "py_less (PFloat (Finite u)) (PFloat (Finite v)) = (u < v)"
| "py_less x (PFloat NaN) = False"
| "py_less (PFloat NaN) y = False"
| "py_less x (PFloat PosInf) = (x \<noteq> PFloat PosInf)"
| "py_less x (PFloat NegInf) = False"
| "py_less (PFloat PosInf) y = False"
| "py_less (PFloat NegInf) y = True"

text \<open>\<^verbatim>\<open>max(a, b)\<close> keeps the first argument unless the second is greater.\<close>

definition py_max :: "pynum \<Rightarrow> pynum \<Rightarrow> pynum" where
  "py_max a b = (if py_less a b then b else a)"

text \<open>Truth value of a number: everything but zero.\<close>

fun py_truthy :: "pynum \<Rightarrow> bool" where
  "py_truthy (PInt n) = (n \<noteq> 0)"
| "py_truthy (PFloat x) = (x \<noteq> Finite 0)"

section \<open>The remote platform and the resource client\<close>

text \<open>
  The client of \<^verbatim>\<open>yandex_direct_integration.py\<close>. Dictionaries of the API are records
  whose optional keys are \<open>option\<close> fields; the Russian default texts are transliterated.
\<close>

record add_item =
  item_Id :: "int option"
  item_Errors :: "string list option"

record keyword_data =
  kd_Keyword :: "string option"
  kd_SearchVolume :: "int option"
  kd_Competition :: "string option"
  kd_AverageBid :: "pynum option"

record keyword_search_result =
  ksr_Keywords :: "keyword_data list option"

record api_result =
  AddResults :: "add_item list option"
  KeywordsByKeywordSearchResults :: "keyword_search_result list option"

definition empty_result :: api_result where
  "empty_result = \<lparr>AddResults = None, KeywordsByKeywordSearchResults = None\<rparr>"

record api_body =
  body_error :: bool
  body_result :: "api_result option"

text \<open>
  What one HTTP exchange can come to: the transport fails; a status other than 200 on which
  \<^verbatim>\<open>raise_for_status\<close> raises; a status other than 200 on which it does not (then
  \<^verbatim>\<open>_make_request\<close> falls off its end and returns \<^verbatim>\<open>None\<close>); status 200 with a body,
  \<open>None\<close> when the body is not JSON.
\<close>

datatype http_outcome =
    Transport_failure
  | Status_raising
  | Status_silent
  | Status_200 "api_body option"

record text_campaign =
  BiddingStrategyType :: string
  AverageCpc :: "int option"
  WeeklySpendLimit :: "int option"

record campaign_data =
  cd_Name :: string
  cd_StartDate :: string
  cd_TextCampaign :: text_campaign
  cd_DailyBudget_Amount :: int
  cd_EndDate :: "string option"

record ad_group =
  ag_Name :: string
  ag_CampaignId :: int
  ag_RegionIds :: "int list"
  ag_NegativeKeywords :: "string list option"

record keyword_item =
  ki_Keyword :: string
  ki_AdGroupId :: int
  ki_Bid :: "pynum option"
  ki_UserParam1 :: "string option"
  ki_UserParam2 :: "string option"

record ad_item =
  ai_AdGroupId :: int
  ai_Title :: string
  ai_Text :: string
  ai_Href :: string
  ai_Mobile :: string
  ai_Title2 :: "string option"
  ai_DisplayHref :: "string option"

datatype payload =
    Campaigns_params "campaign_data list"
  | AdGroups_params "ad_group list"
  | Keywords_params "keyword_item list"
  | Ads_params "ad_item list"
  | KeywordsByKeyword_params "string list" "int list"

record request =
  api_service :: string
  api_method :: string
  params :: payload

text \<open>
  The platform answers a request knowing the requests before it. A run threads the list of
  the requests sent so far; every function that talks to the platform returns it extended.
\<close>

type_synonym remote = "request list \<Rightarrow> request \<Rightarrow> http_outcome"

definition make_request ::
  "remote \<Rightarrow> string \<Rightarrow> string \<Rightarrow> payload \<Rightarrow> request list \<Rightarrow> (exn + api_result option) \<times> request list" where
  "make_request env svc meth ps sent =
     (let req = \<lparr>api_service = svc, api_method = meth, params = ps\<rparr> in
      (case env sent req of
         Transport_failure \<Rightarrow> Inl TransportError
       | Status_raising \<Rightarrow> Inl HTTPStatusError
       | Status_silent \<Rightarrow> Inr None
       | Status_200 None \<Rightarrow> Inl JSONDecodeError
       | Status_200 (Some b) \<Rightarrow>
           if body_error b then Inl ApiError
           else Inr (Some (case body_result b of None \<Rightarrow> empty_result | Some r \<Rightarrow> r)),
       sent @ [req]))"

text \<open>
  The loop over \<^verbatim>\<open>AddResults\<close>, the same in the four create methods: an item with an
  \<^verbatim>\<open>Id\<close> gives an id, otherwise its \<^verbatim>\<open>Errors\<close>, if any, are appended.
\<close>

definition created_ids :: "add_item list \<Rightarrow> int list" where
  "created_ids items = List.map_filter item_Id items"

definition item_errors :: "add_item list \<Rightarrow> string list" where
  "item_errors items =
     concat (map (\<lambda>it. case item_Id it of Some i \<Rightarrow> []
                        | None \<Rightarrow> (case item_Errors it of Some es \<Rightarrow> es | None \<Rightarrow> [])) items)"

definition get_or :: "'a option \<Rightarrow> 'a \<Rightarrow> 'a" where
  "get_or v d = (case v of None \<Rightarrow> d | Some x \<Rightarrow> x)"

definition nonempty_opt :: "'a list option \<Rightarrow> 'a list option" where
  "nonempty_opt v = (case v of Some (x # xs) \<Rightarrow> Some (x # xs) | _ \<Rightarrow> None)"

subsection \<open>create_campaign\<close>

record campaign_config =
  cfg_name :: "string option"
  cfg_start_date :: "string option"
  cfg_bidding_strategy :: "string option"
  cfg_average_cpc :: "int option"
  cfg_weekly_spend_limit :: "int option"
  cfg_daily_budget :: "int option"
  cfg_end_date :: "string option"

definition empty_campaign_config :: campaign_config where
  "empty_campaign_config = \<lparr>cfg_name = None, cfg_start_date = None, cfg_bidding_strategy = None,
     cfg_average_cpc = None, cfg_weekly_spend_limit = None, cfg_daily_budget = None,
     cfg_end_date = None\<rparr>"

definition build_text_campaign_config :: "campaign_config \<Rightarrow> text_campaign" where
  "build_text_campaign_config cfg =
     (let bidding_strategy = get_or (cfg_bidding_strategy cfg) ''HIGHEST_POSITION'' in
      \<lparr>BiddingStrategyType = bidding_strategy,
       AverageCpc = (if bidding_strategy = ''AVERAGE_CPC''
                     then Some (get_or (cfg_average_cpc cfg) 50 * 1000000) else None),
       WeeklySpendLimit = (if bidding_strategy \<noteq> ''AVERAGE_CPC'' \<and> bidding_strategy = ''WB_MAXIMUM_CLICKS''
                     then Some (get_or (cfg_weekly_spend_limit cfg) 7000 * 1000000) else None)\<rparr>)"

definition campaign_payload :: "string \<Rightarrow> campaign_config \<Rightarrow> payload" where
  "campaign_payload today cfg = Campaigns_params
     [\<lparr>cd_Name = get_or (cfg_name cfg) ''Avtomaticheskaya kampaniya'',
       cd_StartDate = get_or (cfg_start_date cfg) today,
       cd_TextCampaign = build_text_campaign_config cfg,
       cd_DailyBudget_Amount = get_or (cfg_daily_budget cfg) 1000 * 1000000,
       cd_EndDate = nonempty_opt (cfg_end_date cfg)\<rparr>]"

text \<open>
  The result of \<^verbatim>\<open>create_campaign\<close> is the dictionary
  \<^verbatim>\<open>{"campaign_ids": ..., "result": ...}\<close>, here a pair. Every exception is logged and
  raised again by the \<^verbatim>\<open>except\<close> clause, so it is the function's outcome.
\<close>

definition create_campaign ::
  "remote \<Rightarrow> string \<Rightarrow> campaign_config \<Rightarrow> request list \<Rightarrow> (exn + int list \<times> api_result) \<times> request list" where
  "create_campaign env today cfg sent =
     (case make_request env ''campaigns'' ''add'' (campaign_payload today cfg) sent of
        (Inl e, sent') \<Rightarrow> (Inl e, sent')
      | (Inr None, sent') \<Rightarrow> (Inl TypeError, sent')
      | (Inr (Some result), sent') \<Rightarrow>
          (case AddResults result of
             None \<Rightarrow> (Inl UnexpectedStructure, sent')
           | Some add_results \<Rightarrow>
               if item_errors add_results \<noteq> []
               then (Inl (CreationErrors Campaigns (item_errors add_results)), sent')
               else (Inr (created_ids add_results, result), sent')))"

subsection \<open>create_ad_groups\<close>

record keyword_config =
  k_text :: "string option"
  k_bid :: "pynum option"
  k_param1 :: "string option"
  k_param2 :: "string option"

record ad_config =
  a_title :: "string option"
  a_text :: "string option"
  a_href :: "string option"
  a_title2 :: "string option"
  a_display_href :: "string option"

record group_config =
  g_name :: "string option"
  g_region_ids :: "int list option"
  g_negative_keywords :: "string list"
  g_keywords :: "keyword_config list"
  g_ads :: "ad_config list"

definition ad_group_of :: "int \<Rightarrow> group_config \<Rightarrow> ad_group" where
  "ad_group_of campaign_id g =
     \<lparr>ag_Name = get_or (g_name g) ''Gruppa obyavlenii'',
      ag_CampaignId = campaign_id,
      ag_RegionIds = get_or (g_region_ids g) [213],
      ag_NegativeKeywords = nonempty_opt (Some (g_negative_keywords g))\<rparr>"

definition create_ad_groups ::
  "remote \<Rightarrow> int \<Rightarrow> group_config list \<Rightarrow> request list \<Rightarrow> (exn + int list \<times> api_result) \<times> request list" where
  "create_ad_groups env campaign_id groups_config sent =
     (case make_request env ''adgroups'' ''add''
             (AdGroups_params (map (ad_group_of campaign_id) groups_config)) sent of
        (Inl e, sent') \<Rightarrow> (Inl e, sent')
      | (Inr None, sent') \<Rightarrow> (Inl AttributeError, sent')
      | (Inr (Some result), sent') \<Rightarrow>
          (let add_results = get_or (AddResults result) [] in
           if item_errors add_results \<noteq> []
           then (Inl (CreationErrors AdGroups (item_errors add_results)), sent')
           else (Inr (created_ids add_results, result), sent')))"

subsection \<open>create_keywords and create_ads\<close>

definition truthy_str :: "string option \<Rightarrow> string option" where
  "truthy_str v = (case v of Some (c # cs) \<Rightarrow> Some (c # cs) | _ \<Rightarrow> None)"

definition keyword_of :: "int \<Rightarrow> keyword_config \<Rightarrow> exn + keyword_item" where
  "keyword_of group_id k =
     then_do (case k_bid k of
                None \<Rightarrow> Inr None
              | Some b \<Rightarrow> if py_truthy b then then_do (py_mul b (PInt 1000000)) (\<lambda>v. Inr (Some v))
                          else Inr None)
       (\<lambda>bid. Inr \<lparr>ki_Keyword = get_or (k_text k) [],
                   ki_AdGroupId = group_id,
                   ki_Bid = bid,
                   ki_UserParam1 = truthy_str (k_param1 k),
                   ki_UserParam2 = truthy_str (k_param2 k)\<rparr>)"

fun keywords_of :: "int \<Rightarrow> keyword_config list \<Rightarrow> exn + keyword_item list" where
  "keywords_of group_id [] = Inr []"
| "keywords_of group_id (k # ks) =
     then_do (keyword_of group_id k) (\<lambda>x. then_do (keywords_of group_id ks) (\<lambda>xs. Inr (x # xs)))"

definition create_keywords ::
  "remote \<Rightarrow> int \<Rightarrow> keyword_config list \<Rightarrow> request list \<Rightarrow> (exn + int list \<times> api_result) \<times> request list" where
  "create_keywords env group_id keywords_config sent =
     (case keywords_of group_id keywords_config of
        Inl e \<Rightarrow> (Inl e, sent)
      | Inr keywords \<Rightarrow>
         (case make_request env ''keywords'' ''add'' (Keywords_params keywords) sent of
            (Inl e, sent') \<Rightarrow> (Inl e, sent')
          | (Inr None, sent') \<Rightarrow> (Inl AttributeError, sent')
          | (Inr (Some result), sent') \<Rightarrow>
              (let add_results = get_or (AddResults result) [] in
               if item_errors add_results \<noteq> []
               then (Inl (CreationErrors Keywords (item_errors add_results)), sent')
               else (Inr (created_ids add_results, result), sent'))))"

definition ad_of :: "int \<Rightarrow> ad_config \<Rightarrow> ad_item" where
  "ad_of group_id a =
     \<lparr>ai_AdGroupId = group_id,
      ai_Title = get_or (a_title a) ''Zagolovok obyavleniya'',
      ai_Text = get_or (a_text a) ''Tekst obyavleniya'',
      ai_Href = get_or (a_href a) ''https://example.com'',
      ai_Mobile = ''NO'',
      ai_Title2 = truthy_str (a_title2 a),
      ai_DisplayHref = truthy_str (a_display_href a)\<rparr>"

definition create_ads ::
  "remote \<Rightarrow> int \<Rightarrow> ad_config list \<Rightarrow> request list \<Rightarrow> (exn + int list \<times> api_result) \<times> request list" where
  "create_ads env group_id ads_config sent =
     (case make_request env ''ads'' ''add'' (Ads_params (map (ad_of group_id) ads_config)) sent of
        (Inl e, sent') \<Rightarrow> (Inl e, sent')
      | (Inr None, sent') \<Rightarrow> (Inl AttributeError, sent')
      | (Inr (Some result), sent') \<Rightarrow>
          (let add_results = get_or (AddResults result) [] in
           if item_errors add_results \<noteq> []
           then (Inl (CreationErrors Ads (item_errors add_results)), sent')
           else (Inr (created_ids add_results, result), sent')))"

section \<open>The provisioning orchestrator\<close>

text \<open>
  \<^verbatim>\<open>create_full_campaign_from_strategy\<close>: campaign, ad groups, then keywords and ads for
  the groups created. \<^verbatim>\<open>enumerate(group_ids)\<close> with the test \<^verbatim>\<open>i < len(groups_config)\<close>
  pairs the ids with the configurations by position: a \<open>zip\<close>. Any exception of a stage
  leaves the loops and the function through the outer \<^verbatim>\<open>except\<close>, which raises it again.
\<close>

record strategy_config =
  campaign :: "campaign_config option"
  ad_groups :: "group_config list"

record campaign_summary =
  campaign_id :: int
  groups_count :: nat
  created_at :: string
  status :: string

fun keywords_stage ::
  "remote \<Rightarrow> (int \<times> group_config) list \<Rightarrow> request list \<Rightarrow> (exn + unit) \<times> request list" where
  "keywords_stage env [] sent = (Inr (), sent)"
| "keywords_stage env ((group_id, g) # rest) sent =
     (if g_keywords g = [] then keywords_stage env rest sent
      else case create_keywords env group_id (g_keywords g) sent of
             (Inl e, sent') \<Rightarrow> (Inl e, sent')
           | (Inr r, sent') \<Rightarrow> keywords_stage env rest sent')"

fun ads_stage ::
  "remote \<Rightarrow> (int \<times> group_config) list \<Rightarrow> request list \<Rightarrow> (exn + unit) \<times> request list" where
  "ads_stage env [] sent = (Inr (), sent)"
| "ads_stage env ((group_id, g) # rest) sent =
     (if g_ads g = [] then ads_stage env rest sent
      else case create_ads env group_id (g_ads g) sent of
             (Inl e, sent') \<Rightarrow> (Inl e, sent')
           | (Inr r, sent') \<Rightarrow> ads_stage env rest sent')"

definition create_full_campaign_from_strategy ::
  "remote \<Rightarrow> string \<Rightarrow> string \<Rightarrow> strategy_config \<Rightarrow> (exn + campaign_summary) \<times> request list" where
  "create_full_campaign_from_strategy env today now strategy =
     (case create_campaign env today (get_or (campaign strategy) empty_campaign_config) [] of
        (Inl e, sent1) \<Rightarrow> (Inl e, sent1)
      | (Inr (campaign_ids, r1), sent1) \<Rightarrow>
         (case campaign_ids of
            [] \<Rightarrow> (Inl IndexError, sent1)
          | cid # others \<Rightarrow>
             (case create_ad_groups env cid (ad_groups strategy) sent1 of
                (Inl e, sent2) \<Rightarrow> (Inl e, sent2)
              | (Inr (group_ids, r2), sent2) \<Rightarrow>
                 (case keywords_stage env (zip group_ids (ad_groups strategy)) sent2 of
                    (Inl e, sent3) \<Rightarrow> (Inl e, sent3)
                  | (Inr u, sent3) \<Rightarrow>
                     (case ads_stage env (zip group_ids (ad_groups strategy)) sent3 of
                        (Inl e, sent4) \<Rightarrow> (Inl e, sent4)
                      | (Inr u', sent4) \<Rightarrow>
                          (Inr \<lparr>campaign_id = cid, groups_count = length group_ids,
                                created_at = now, status = ''created_in_draft''\<rparr>, sent4))))))"

section \<open>Keyword suggestions\<close>

text \<open>
  \<^verbatim>\<open>YandexDirectAPIClient.get_keyword_suggestions\<close>: the whole body is inside
  \<^verbatim>\<open>try\<close>, and the \<^verbatim>\<open>except Exception\<close> clause returns the empty list.
\<close>

record suggestion =
  sg_keyword :: string
  sg_search_volume :: int
  sg_competition :: string
  sg_average_bid :: pyfloat
  sg_source :: string

definition suggestion_of :: "keyword_data \<Rightarrow> exn + suggestion" where
  "suggestion_of kd =
     then_do (py_truediv (get_or (kd_AverageBid kd) (PInt 0)) (PInt 1000000))
       (\<lambda>b. Inr \<lparr>sg_keyword = get_or (kd_Keyword kd) [],
                 sg_search_volume = get_or (kd_SearchVolume kd) 0,
                 sg_competition = get_or (kd_Competition kd) ''UNKNOWN'',
                 sg_average_bid = b,
                 sg_source = ''yandex_direct_api''\<rparr>)"

fun suggestions_of :: "keyword_data list \<Rightarrow> exn + suggestion list" where
  "suggestions_of [] = Inr []"
| "suggestions_of (kd # kds) =
     then_do (suggestion_of kd) (\<lambda>s. then_do (suggestions_of kds) (\<lambda>ss. Inr (s # ss)))"

definition get_keyword_suggestions ::
  "remote \<Rightarrow> string list \<Rightarrow> int list option \<Rightarrow> request list \<Rightarrow> suggestion list \<times> request list" where
  "get_keyword_suggestions env base_keywords region_ids sent =
     (case make_request env ''keywordsresearch'' ''get''
             (KeywordsByKeyword_params (take 10 base_keywords) (get_or region_ids [225])) sent of
        (Inl e, sent') \<Rightarrow> ([], sent')
      | (Inr None, sent') \<Rightarrow> ([], sent')
      | (Inr (Some result), sent') \<Rightarrow>
          (case KeywordsByKeywordSearchResults result of
             None \<Rightarrow> ([], sent')
           | Some results \<Rightarrow>
               (case suggestions_of (concat (map (\<lambda>r. get_or (ksr_Keywords r) []) results)) of
                  Inl e \<Rightarrow> ([], sent')
                | Inr suggestions \<Rightarrow> (suggestions, sent'))))"

text \<open>
  \<^verbatim>\<open>ProfessionalCampaignManager._get_yandex_keyword_suggestions\<close>: the suggestions of
  the client, reformatted; its \<^verbatim>\<open>except\<close> clause builds the fallback list from the first
  five base keywords.
\<close>

record formatted_suggestion =
  fs_keyword :: string
  fs_bid :: int
  fs_search_volume :: int
  fs_competition :: string
  fs_source :: string

definition formatted_of :: "suggestion \<Rightarrow> exn + formatted_suggestion" where
  "formatted_of s =
     then_do (py_int (PFloat (sg_average_bid s)))
       (\<lambda>b. Inr \<lparr>fs_keyword = sg_keyword s, fs_bid = b, fs_search_volume = sg_search_volume s,
                 fs_competition = sg_competition s, fs_source = ''yandex_api''\<rparr>)"

fun formatted_suggestions_of :: "suggestion list \<Rightarrow> exn + formatted_suggestion list" where
  "formatted_suggestions_of [] = Inr []"
| "formatted_suggestions_of (s # ss) =
     then_do (formatted_of s) (\<lambda>x. then_do (formatted_suggestions_of ss) (\<lambda>xs. Inr (x # xs)))"

definition fallback_suggestion :: "string \<Rightarrow> formatted_suggestion" where
  "fallback_suggestion keyword =
     \<lparr>fs_keyword = keyword, fs_bid = 50, fs_search_volume = 1000,
      fs_competition = ''MEDIUM'', fs_source = ''fallback''\<rparr>"

definition get_yandex_keyword_suggestions ::
  "remote \<Rightarrow> string list \<Rightarrow> request list \<Rightarrow> formatted_suggestion list \<times> request list" where
  "get_yandex_keyword_suggestions env base_keywords sent =
     (case get_keyword_suggestions env base_keywords None sent of
        (suggestions, sent') \<Rightarrow>
          (case formatted_suggestions_of suggestions of
             Inr formatted \<Rightarrow> (formatted, sent')
           | Inl e \<Rightarrow> (map fallback_suggestion (take 5 base_keywords), sent')))"

section \<open>The semantic core\<close>

text \<open>
  What \<^verbatim>\<open>json.loads\<close> returns. A dictionary is the list of its items; the parser keeps
  one item per key.
\<close>

datatype json =
    JNull
  | JBool bool
  | JNum pynum
  | JStr string
  | JArr "json list"
  | JObj "(string \<times> json) list"

text \<open>Subscription \<^verbatim>\<open>d[key]\<close> with a string key, and \<^verbatim>\<open>len\<close>.\<close>

fun py_getitem :: "json \<Rightarrow> string \<Rightarrow> exn + json" where
  "py_getitem (JObj items) key = (case map_of items key of None \<Rightarrow> Inl (KeyError key) | Some v \<Rightarrow> Inr v)"
| "py_getitem v key = Inl TypeError"

fun py_len :: "json \<Rightarrow> exn + nat" where
  "py_len (JArr xs) = Inr (length xs)"
| "py_len (JObj items) = Inr (length items)"
| "py_len (JStr s) = Inr (length s)"
| "py_len v = Inl TypeError"

text \<open>
  \<^verbatim>\<open>re.search(r'\{.*\}', content, re.DOTALL)\<close>: from the first opening brace to the last
  closing brace after it, if there is one.
\<close>

definition json_match :: "string \<Rightarrow> string option" where
  "json_match content =
     (let from_brace = dropWhile (\<lambda>c. c \<noteq> CHR ''{'') content;
          matched = rev (dropWhile (\<lambda>c. c \<noteq> CHR ''}'') (rev from_brace))
      in if matched = [] then None else Some matched)"

text \<open>
  \<^verbatim>\<open>_safe_json_parse\<close>. The parser \<^verbatim>\<open>json.loads\<close> is a parameter: \<open>None\<close> when it
  raises. No match and a parse error both give the empty dictionary.
\<close>

definition safe_json_parse :: "(string \<Rightarrow> json option) \<Rightarrow> string \<Rightarrow> json" where
  "safe_json_parse loads content =
     (case json_match content of
        None \<Rightarrow> JObj []
      | Some matched \<Rightarrow> (case loads matched of None \<Rightarrow> JObj [] | Some v \<Rightarrow> v))"

text \<open>
  \<^verbatim>\<open>_generate_ai_keywords\<close>. The answer of the content-generation service is a
  parameter: the exception it raised or the text it returned.
\<close>

definition generate_ai_keywords :: "(string \<Rightarrow> json option) \<Rightarrow> exn + string \<Rightarrow> json" where
  "generate_ai_keywords loads answer =
     (case answer of
        Inr output_text \<Rightarrow> safe_json_parse loads output_text
      | Inl e \<Rightarrow> JObj [(''high_priority'', JArr []), (''medium_priority'', JArr []),
                       (''low_priority'', JArr []), (''negative_keywords'', JArr [])])"

record semantic_core =
  high_priority :: json
  medium_priority :: json
  low_priority :: json
  negative_keywords :: json
  yandex_suggestions :: "formatted_suggestion list"

text \<open>
  \<^verbatim>\<open>_create_semantic_core_with_yandex\<close>. The four subscriptions raise
  \<^verbatim>\<open>KeyError\<close> on a missing key; the log line after the construction takes
  \<^verbatim>\<open>len(semantic_core.high_priority)\<close>. Nothing here catches an exception.
\<close>

definition create_semantic_core_with_yandex ::
  "(string \<Rightarrow> json option) \<Rightarrow> exn + string \<Rightarrow> remote \<Rightarrow> string list \<Rightarrow> request list
     \<Rightarrow> (exn + semantic_core) \<times> request list" where
  "create_semantic_core_with_yandex loads answer env keywords sent =
     (let ai_keywords = generate_ai_keywords loads answer in
      case get_yandex_keyword_suggestions env keywords sent of
        (suggestions, sent') \<Rightarrow>
          (then_do (py_getitem ai_keywords ''high_priority'') (\<lambda>h.
           then_do (py_getitem ai_keywords ''medium_priority'') (\<lambda>m.
           then_do (py_getitem ai_keywords ''low_priority'') (\<lambda>l.
           then_do (py_getitem ai_keywords ''negative_keywords'') (\<lambda>n.
           then_do (py_len h) (\<lambda>k.
             Inr \<lparr>high_priority = h, medium_priority = m, low_priority = l,
                  negative_keywords = n, yandex_suggestions = suggestions\<rparr>))))),
           sent'))"




section \<open>Budget allocation and forecast\<close>

text \<open>
  \<^verbatim>\<open>_calculate_budget_and_forecast\<close>. A decimal literal of the source is the float
  nearest to it. The semantic core is only measured (\<^verbatim>\<open>total_keywords\<close>), the analysis
  is not used. The statements are evaluated in the order of the source, so the first
  exception of the model is the first of the code.
\<close>

record business_info =
  website :: "string option"
  description :: string
  industry :: string
  target_audience :: string
  budget_daily :: int
  budget_currency :: string

record budget_allocation =
  daily_budget :: int
  high_priority_percent :: int
  medium_priority_percent :: int
  low_priority_percent :: int
  high_priority_budget :: int
  medium_priority_budget :: int
  low_priority_budget :: int

record expected_performance =
  expected_clicks_per_day :: int
  expected_conversions_per_day :: int
  expected_cpc :: int
  expected_ctr :: pyfloat
  expected_conversion_rate :: pyfloat
  cost_per_conversion :: int
  monthly_budget :: int
  monthly_conversions :: int

definition float_literal :: "rat \<Rightarrow> pynum" where
  "float_literal x = PFloat (fl x)"

text \<open>\<^verbatim>\<open>int(business_info.budget_daily * share)\<close>\<close>

definition tier_budget :: "int \<Rightarrow> rat \<Rightarrow> exn + int" where
  "tier_budget budget share = then_do (py_mul (PInt budget) (float_literal share)) py_int"

definition calculate_budget_and_forecast ::
  "business_info \<Rightarrow> semantic_core \<Rightarrow> exn + budget_allocation \<times> expected_performance" where
  "calculate_budget_and_forecast info core =
     then_do (py_len (high_priority core)) (\<lambda>n_high.
     then_do (py_len (medium_priority core)) (\<lambda>n_medium.
     then_do (py_len (low_priority core)) (\<lambda>n_low.
     then_do (tier_budget (budget_daily info) (6 / 10)) (\<lambda>high.
     then_do (tier_budget (budget_daily info) (3 / 10)) (\<lambda>medium.
     then_do (tier_budget (budget_daily info) (1 / 10)) (\<lambda>low.
     then_do (py_truediv (PInt (budget_daily info)) (PInt 45)) (\<lambda>expected_clicks.
     then_do (py_mul (PFloat expected_clicks) (float_literal (8 / 100))) (\<lambda>expected_conversions.
     then_do (py_int (PFloat expected_clicks)) (\<lambda>clicks_per_day.
     then_do (py_int expected_conversions) (\<lambda>conversions_per_day.
     then_do (py_truediv (PInt (budget_daily info)) (py_max expected_conversions (PInt 1))) (\<lambda>cost.
     then_do (py_int (PFloat cost)) (\<lambda>cost_per_conv.
     then_do (py_mul expected_conversions (PInt 30)) (\<lambda>per_month.
     then_do (py_int per_month) (\<lambda>monthly_conv.
       Inr (\<lparr>daily_budget = budget_daily info,
                high_priority_percent = 60, medium_priority_percent = 30, low_priority_percent = 10,
                high_priority_budget = high, medium_priority_budget = medium,
                low_priority_budget = low\<rparr>,
            \<lparr>expected_clicks_per_day = clicks_per_day,
                expected_conversions_per_day = conversions_per_day,
                expected_cpc = 45,
                expected_ctr = fl (25 / 1000),
                expected_conversion_rate = fl (8 / 100),
                cost_per_conversion = cost_per_conv,
                monthly_budget = budget_daily info * 30,
                monthly_conversions = monthly_conv\<rparr>)))))))))))))))"

text \<open>The first component of the result: the \<^verbatim>\<open>budget_allocation\<close> dictionary.\<close>

definition budget_allocation_of :: "business_info \<Rightarrow> semantic_core \<Rightarrow> exn + budget_allocation" where
  "budget_allocation_of info core =
     then_do (calculate_budget_and_forecast info core) (\<lambda>result. Inr (fst result))"

section \<open>Bid optimisation\<close>

text \<open>
  \<^verbatim>\<open>optimize_keyword_bids\<close>. An entry is a dictionary that may lack \<^verbatim>\<open>"bid"\<close> (then
  the integer 0) and \<^verbatim>\<open>"keyword"\<close> (then the empty string). The loop stops at the first
  exception, which nothing in the function catches.
\<close>

record keyword_bid =
  kb_keyword :: "string option"
  kb_bid :: "pynum option"

record optimized_bid =
  ob_keyword :: string
  old_bid :: pynum
  new_bid :: pynum
  change_percent :: pynum

definition optimize_one :: "int \<Rightarrow> keyword_bid \<Rightarrow> exn + optimized_bid" where
  "optimize_one target_position keyword_data =
     (let current_bid = get_or (kb_bid keyword_data) (PInt 0);
          keyword = get_or (kb_keyword keyword_data) []
      in then_do (if target_position \<le> 3 then py_mul current_bid (float_literal (12 / 10))
                  else if target_position \<le> 6 then Inr current_bid
                  else py_mul current_bid (float_literal (9 / 10))) (\<lambda>new.
         then_do (py_sub new current_bid) (\<lambda>difference.
         then_do (py_truediv difference current_bid) (\<lambda>ratio.
         then_do (py_mul (PFloat ratio) (PInt 100)) (\<lambda>percent.
           Inr \<lparr>ob_keyword = keyword, old_bid = current_bid, new_bid = new,
                change_percent = percent\<rparr>)))))"

fun optimize_keyword_bids :: "keyword_bid list \<Rightarrow> int \<Rightarrow> exn + optimized_bid list" where
  "optimize_keyword_bids [] target_position = Inr []"
| "optimize_keyword_bids (keyword_data # rest) target_position =
     then_do (optimize_one target_position keyword_data) (\<lambda>entry.
     then_do (optimize_keyword_bids rest target_position) (\<lambda>entries. Inr (entry # entries)))"

definition bid_of :: "keyword_bid \<Rightarrow> pynum" where
  "bid_of keyword_data = get_or (kb_bid keyword_data) (PInt 0)"

definition keyword_text_of :: "keyword_bid \<Rightarrow> string" where
  "keyword_text_of keyword_data = get_or (kb_keyword keyword_data) []"

text \<open>
  A bid that can take part in float arithmetic: a float, or an integer that \<^verbatim>\<open>float\<close>
  accepts. For a target position from 4 to 6 the bid is never multiplied by a float, and
  every bid will do.
\<close>

fun convertible :: "pynum \<Rightarrow> bool" where
  "convertible (PInt n) = (float_of_int n \<noteq> Inl OverflowError)"
| "convertible (PFloat x) = True"

definition usable_bid :: "int \<Rightarrow> pynum \<Rightarrow> bool" where
  "usable_bid target_position bid = ((3 < target_position \<and> target_position \<le> 6) \<or> convertible bid)"

text \<open>
  The rule in the words of the specification: up to rank 3 the bid times 1.2, up to rank 6
  the bid unchanged, else the bid times 0.9; the percent change is the new bid minus the
  old one, divided by the old one, times 100. The arithmetic is the one of the language.
\<close>

definition rebid_rule :: "int \<Rightarrow> pynum \<Rightarrow> exn + pynum \<times> pynum" where
  "rebid_rule target_rank bid =
     then_do (if target_rank \<le> 3 then py_mul bid (float_literal (12 / 10))
              else if target_rank \<le> 6 then Inr bid
              else py_mul bid (float_literal (9 / 10))) (\<lambda>new_bid.
     then_do (py_sub new_bid bid) (\<lambda>difference.
     then_do (py_truediv difference bid) (\<lambda>ratio.
     then_do (py_mul (PFloat ratio) (PInt 100)) (\<lambda>percent_change.
       Inr (new_bid, percent_change)))))"

section \<open>Scenarios of the rollout\<close>

definition campaign_request :: "string \<Rightarrow> strategy_config \<Rightarrow> request" where
  "campaign_request today strategy =
     \<lparr>api_service = ''campaigns'', api_method = ''add'',
      params = campaign_payload today (get_or (campaign strategy) empty_campaign_config)\<rparr>"


definition campaign_failed :: "remote \<Rightarrow> string \<Rightarrow> strategy_config \<Rightarrow> bool" where
  "campaign_failed env today strategy =
     (case fst (create_campaign env today (get_or (campaign strategy) empty_campaign_config) []) of
        Inl e \<Rightarrow> True
      | Inr (ids, r) \<Rightarrow> ids = [])"

definition group_a :: group_config where
  "group_a = \<lparr>g_name = Some ''A'', g_region_ids = None, g_negative_keywords = [],
     g_keywords = [\<lparr>k_text = Some ''kupit divan'', k_bid = None, k_param1 = None, k_param2 = None\<rparr>],
     g_ads = [\<lparr>a_title = Some ''Divany'', a_text = None, a_href = None, a_title2 = None, a_display_href = None\<rparr>]\<rparr>"

definition group_b :: group_config where
  "group_b = group_a\<lparr>g_name := Some ''B''\<rparr>"

definition two_groups :: strategy_config where
  "two_groups = \<lparr>campaign = None, ad_groups = [group_a, group_b]\<rparr>"




definition unreachable_platform :: remote where
  "unreachable_platform sent req = Transport_failure"

definition kw :: "string \<Rightarrow> json" where
  "kw s = JObj [(''keyword'', JStr s), (''bid'', JNum (PInt 100))]"





definition budget_of :: "int \<Rightarrow> business_info" where
  "budget_of b = \<lparr>website = None, description = ''mebel na zakaz'', industry = [],
     target_audience = [], budget_daily = b, budget_currency = ''RUB''\<rparr>"

definition tiers_5_3_2 :: semantic_core where
  "tiers_5_3_2 = \<lparr>high_priority = JArr (replicate 5 (kw ''divan'')),
     medium_priority = JArr (replicate 3 (kw ''kreslo'')),
     low_priority = JArr (replicate 2 (kw ''mebel'')),
     negative_keywords = JArr [], yandex_suggestions = []\<rparr>"

definition bid_entry :: "string \<Rightarrow> pynum \<Rightarrow> keyword_bid" where
  "bid_entry keyword bid = \<lparr>kb_keyword = Some keyword, kb_bid = Some bid\<rparr>"

section \<open>Rounding to binary64\<close>

lemma rhe_lower: "x - 1 / 2 \<le> of_int (round_half_even x)"
  unfolding round_half_even_def Let_def by (auto; linarith)

lemma rhe_upper: "of_int (round_half_even x) \<le> x + 1 / 2"
  unfolding round_half_even_def Let_def by (auto; linarith)

lemma rhe_of_int [simp]: "round_half_even (of_int n) = n"
  unfolding round_half_even_def Let_def by simp

lemma rhe_ge: "of_int n - 1 / 2 < x \<Longrightarrow> n \<le> round_half_even x"
  using rhe_lower [of x] by linarith

lemma rhe_lt: "x < of_int n - 1 / 2 \<Longrightarrow> round_half_even x < n"
  using rhe_upper [of x] by linarith

lemma rhe_mono_le: "x \<le> of_int n \<Longrightarrow> round_half_even x \<le> n"
  unfolding round_half_even_def Let_def
  by (auto simp: floor_le_iff; linarith)

lemma rhe_mono_ge: "of_int n \<le> x \<Longrightarrow> n \<le> round_half_even x"
  unfolding round_half_even_def Let_def
  by (auto simp: le_floor_iff; linarith)


lemma powi_nat: "0 \<le> k \<Longrightarrow> (2::rat) powi k = 2 ^ nat k"
  by (simp add: power_int_def)

lemma powi_neg_nat: "0 \<le> k \<Longrightarrow> (2::rat) powi (- k) = 1 / 2 ^ nat k"
  by (simp add: power_int_def field_simps)

lemma ilog2_ge1:
  assumes "1 \<le> x"
  shows "2 powi ilog2 x \<le> x \<and> x < 2 powi (ilog2 x + 1)"
proof -
  let ?n = "\<lfloor>x\<rfloor>"
  have n: "0 < ?n" using assms by simp
  have b1: "1 \<le> bitlen ?n" using n by (simp add: bitlen_alt_def)
  from bitlen_bounds [OF n] have lo: "2 ^ nat (bitlen ?n - 1) \<le> ?n" and hi: "?n < 2 ^ nat (bitlen ?n)"
    by auto
  have "of_int (2 ^ nat (bitlen ?n - 1)) \<le> x" using lo by (simp only: le_floor_iff)
  then have 1: "(2::rat) ^ nat (bitlen ?n - 1) \<le> x" by simp
  have "x < of_int (2 ^ nat (bitlen ?n))" using hi by (simp only: floor_less_iff)
  then have 2: "x < (2::rat) ^ nat (bitlen ?n)" by simp
  have e: "ilog2 x = bitlen ?n - 1" using assms by (simp add: ilog2_def)
  show ?thesis using 1 2 b1 by (simp add: e powi_nat)
qed

lemma ilog2_lt1:
  assumes "0 < x" "x < 1"
  shows "2 powi ilog2 x \<le> x \<and> x < 2 powi (ilog2 x + 1)"
proof -
  let ?n = "\<lceil>1 / x\<rceil> - 1"
  have "1 < 1 / x" using assms by simp
  then have "1 < \<lceil>1 / x\<rceil>" by (simp add: less_ceiling_iff)
  then have n: "0 < ?n" by simp
  have b1: "1 \<le> bitlen ?n" using n by (simp add: bitlen_alt_def)
  from bitlen_bounds [OF n] have lo: "2 ^ nat (bitlen ?n - 1) \<le> ?n" and hi: "?n < 2 ^ nat (bitlen ?n)"
    by auto
  have "2 ^ nat (bitlen ?n - 1) < \<lceil>1 / x\<rceil>" using lo by simp
  then have "of_int (2 ^ nat (bitlen ?n - 1)) < 1 / x" by (simp only: less_ceiling_iff)
  then have "(2::rat) ^ nat (bitlen ?n - 1) < 1 / x" by simp
  then have up: "x < 1 / 2 ^ nat (bitlen ?n - 1)"
    using assms(1) by (simp add: field_simps)
  have "\<lceil>1 / x\<rceil> \<le> 2 ^ nat (bitlen ?n)" using hi by simp
  then have "1 / x \<le> of_int (2 ^ nat (bitlen ?n))" by (simp only: ceiling_le_iff)
  then have "1 / x \<le> (2::rat) ^ nat (bitlen ?n)" by simp
  then have low: "1 / 2 ^ nat (bitlen ?n) \<le> x"
    using assms(1) by (simp add: field_simps)
  have e: "ilog2 x = - bitlen ?n" using assms by (simp add: ilog2_def)
  have p1: "(2::rat) powi (ilog2 x) = 1 / 2 ^ nat (bitlen ?n)"
    unfolding e using b1 by (intro powi_neg_nat) simp
  have "ilog2 x + 1 = - (bitlen ?n - 1)" using e by simp
  then have p2: "(2::rat) powi (ilog2 x + 1) = 1 / 2 ^ nat (bitlen ?n - 1)"
    using b1 powi_neg_nat [of "bitlen ?n - 1"] by simp
  show ?thesis unfolding p1 p2 using low up by simp
qed

lemma ilog2_bounds:
  assumes "0 < x"
  shows "2 powi ilog2 x \<le> x" and "x < 2 powi (ilog2 x + 1)"
  using ilog2_ge1 [of x] ilog2_lt1 [of x] assms by (cases "1 \<le> x"; simp)+

lemma powi_less_cancel: "(2::rat) powi a < 2 powi b \<Longrightarrow> a < b"
  by (metis linorder_not_less one_less_numeral_iff power_int_increasing semiring_norm(76) order_less_imp_le)

lemma ilog2_unique:
  assumes "2 powi k \<le> x" "x < 2 powi (k + 1)"
  shows "ilog2 x = k"
proof -
  have x: "0 < x" using assms(1) by (smt (verit) zero_less_power_int zero_less_numeral order_less_le_trans)
  have "2 powi k < (2::rat) powi (ilog2 x + 1)" using assms(1) ilog2_bounds(2) [OF x] by simp
  then have 1: "k < ilog2 x + 1" by (rule powi_less_cancel)
  have "(2::rat) powi ilog2 x < 2 powi (k + 1)" using assms(2) ilog2_bounds(1) [OF x] by simp
  then have 2: "ilog2 x < k + 1" by (rule powi_less_cancel)
  show ?thesis using 1 2 by simp
qed


lemma powi_le_cancel: "(2::rat) powi a \<le> 2 powi b \<Longrightarrow> a \<le> b"
proof (rule ccontr)
  assume le: "(2::rat) powi a \<le> 2 powi b" and "\<not> a \<le> b"
  then have "b < a" by simp
  then have "(2::rat) powi b < 2 powi a" by (intro power_int_strict_increasing) simp_all
  then show False using le by simp
qed

lemma powi_split: "(2::rat) powi (a + b) = 2 powi a * 2 powi b"
  by (simp add: power_int_add)

lemma powi_quot: "(2::rat) powi a / 2 powi b = 2 powi (a - b)"
  by (simp add: power_int_diff)

lemma powi_pos [simp]: "0 < (2::rat) powi a"
  by simp

lemma ulp_exp_normal:
  assumes "2 powi (e + 52) \<le> x" "x < 2 powi (e + 53)" "- 1074 \<le> e"
  shows "ulp_exp x = e"
proof -
  have "ilog2 x = e + 52" using assms(1,2) by (intro ilog2_unique) (simp_all add: add.commute add.left_commute)
  then show ?thesis using assms(3) by (simp add: ulp_exp_def)
qed

lemma ulp_exp_ge: "- 1074 \<le> ulp_exp x"
  by (simp add: ulp_exp_def)

lemma round_pos_nonneg:
  assumes "0 < x"
  shows "0 \<le> round_pos x"
proof -
  have "0 \<le> x / 2 powi ulp_exp x" using assms by simp
  then have "0 \<le> round_half_even (x / 2 powi ulp_exp x)" using rhe_mono_ge [of 0] by simp
  then show ?thesis by (simp add: round_pos_def)
qed

lemma round_pos_le_pow2:
  assumes "0 < x" "x \<le> 2 powi j" "- 1074 \<le> j"
  shows "round_pos x \<le> 2 powi j"
proof -
  let ?e = "ulp_exp x"
  have "2 powi ilog2 x \<le> (2::rat) powi j" using ilog2_bounds(1) [OF assms(1)] assms(2) by simp
  then have "ilog2 x \<le> j" by (rule powi_le_cancel)
  then have ej: "?e \<le> j" using assms(3) by (simp add: ulp_exp_def)
  have "x / 2 powi ?e \<le> 2 powi j / 2 powi ?e" using assms(2) by (simp add: divide_right_mono)
  also have "\<dots> = 2 powi (j - ?e)" by (rule powi_quot)
  also have "\<dots> = of_int (2 ^ nat (j - ?e))" using ej by (simp add: powi_nat)
  finally have "round_half_even (x / 2 powi ?e) \<le> 2 ^ nat (j - ?e)" by (rule rhe_mono_le)
  then have "(of_int (round_half_even (x / 2 powi ?e)) :: rat) \<le> of_int (2 ^ nat (j - ?e))"
    by (simp only: of_int_le_iff)
  then have "of_int (round_half_even (x / 2 powi ?e)) \<le> (2::rat) powi (j - ?e)"
    using ej by (simp add: powi_nat)
  then have "of_int (round_half_even (x / 2 powi ?e)) * 2 powi ?e \<le> (2::rat) powi (j - ?e) * 2 powi ?e"
    by (simp add: mult_right_mono)
  also have "\<dots> = 2 powi j" using powi_split [of "j - ?e" ?e] by simp
  finally show ?thesis by (simp add: round_pos_def)
qed

lemma round_pos_ge_pow2:
  assumes "2 powi j \<le> x" "- 1074 \<le> j"
  shows "2 powi j \<le> round_pos x"
proof -
  let ?e = "ulp_exp x"
  have x: "0 < x" using assms(1) by (smt (verit) powi_pos order_less_le_trans)
  have "(2::rat) powi j < 2 powi (ilog2 x + 1)" using ilog2_bounds(2) [OF x] assms(1) by simp
  then have jk: "j \<le> ilog2 x" using powi_less_cancel by fastforce
  define i where "i = max j (ilog2 x - 52)"
  have ie: "?e \<le> i" using assms(2) by (simp add: ulp_exp_def i_def)
  have ik: "i \<le> ilog2 x" using jk by (simp add: i_def)
  have "2 powi i \<le> (2::rat) powi ilog2 x" using ik by (intro power_int_increasing) simp_all
  then have ix: "2 powi i \<le> x" using ilog2_bounds(1) [OF x] by simp
  have "(of_int (2 ^ nat (i - ?e)) :: rat) = 2 powi (i - ?e)" using ie by (simp add: powi_nat)
  also have "\<dots> = 2 powi i / 2 powi ?e" by (simp add: powi_quot)
  also have "\<dots> \<le> x / 2 powi ?e" using ix by (simp add: divide_right_mono)
  finally have "2 ^ nat (i - ?e) \<le> round_half_even (x / 2 powi ?e)" by (rule rhe_mono_ge)
  then have "(of_int (2 ^ nat (i - ?e)) :: rat) \<le> of_int (round_half_even (x / 2 powi ?e))"
    by (simp only: of_int_le_iff)
  then have "(2::rat) powi (i - ?e) \<le> of_int (round_half_even (x / 2 powi ?e))"
    using ie by (simp add: powi_nat)
  then have "(2::rat) powi (i - ?e) * 2 powi ?e \<le> of_int (round_half_even (x / 2 powi ?e)) * 2 powi ?e"
    by (simp add: mult_right_mono)
  moreover have "(2::rat) powi (i - ?e) * 2 powi ?e = 2 powi i" using powi_split [of "i - ?e" ?e] by simp
  moreover have "(2::rat) powi j \<le> 2 powi i" by (intro power_int_increasing) (simp_all add: i_def)
  ultimately show ?thesis by (simp add: round_pos_def)
qed

lemma fl_minus: "fl (- x) = float_neg (fl x)"
  by (simp add: fl_def)

lemma fl_pos_finite:
  assumes "0 < x" "round_pos x < 2 ^ 1024"
  shows "fl x = Finite (round_pos x)"
  using assms by (simp add: fl_def)

lemma fl_eval:
  assumes "2 powi (e + 52) \<le> x" "x < 2 powi (e + 53)" "- 1074 \<le> e"
    and "round_half_even (x / 2 powi e) = m" "of_int m * 2 powi e < (2::rat) ^ 1024"
  shows "fl x = Finite (of_int m * 2 powi e)"
proof -
  have x: "0 < x" using assms(1) by (smt (verit) powi_pos order_less_le_trans)
  have "round_pos x = of_int m * 2 powi e"
    using ulp_exp_normal [OF assms(1-3)] assms(4) by (simp add: round_pos_def)
  then show ?thesis using fl_pos_finite [OF x] assms(5) by simp
qed

lemma fl_bounded:
  assumes "0 \<le> x" "x \<le> 2 powi j" "- 1074 \<le> j" "j \<le> 1023"
  shows "\<exists>v. fl x = Finite v \<and> 0 \<le> v \<and> v \<le> 2 powi j"
proof (cases "x = 0")
  case True
  then show ?thesis by (simp add: fl_def)
next
  case False
  then have x: "0 < x" using assms(1) by simp
  have r: "round_pos x \<le> 2 powi j" using x assms(2,3) by (rule round_pos_le_pow2)
  have "(2::rat) powi j \<le> 2 powi 1023" using assms(4) by (intro power_int_increasing) simp_all
  also have "\<dots> < 2 ^ 1024" by simp
  finally have "round_pos x < 2 ^ 1024" using r by simp
  then show ?thesis using fl_pos_finite [OF x] r round_pos_nonneg [OF x] by simp
qed

lemma rhe_near: "\<bar>x - of_int m\<bar> < 1 / 2 \<Longrightarrow> round_half_even x = m"
proof -
  assume a: "\<bar>x - of_int m\<bar> < 1 / 2"
  then have lo: "of_int m - 1 / 2 < x" and hi: "x < of_int m + 1 / 2"
    unfolding abs_less_iff by linarith+
  have "m \<le> round_half_even x" using lo by (rule rhe_ge)
  moreover have "x < of_int (m + 1) - 1 / 2" using hi by simp
  then have "round_half_even x < m + 1" by (rule rhe_lt)
  ultimately show ?thesis by simp
qed

lemma fl_near:
  assumes "2 powi (e + 52) \<le> x" "x < 2 powi (e + 53)" "- 1074 \<le> e"
    and "\<bar>x / 2 powi e - of_int m\<bar> < 1 / 2" "of_int m * 2 powi e < (2::rat) ^ 1024"
  shows "fl x = Finite (of_int m * 2 powi e)"
  using fl_eval [OF assms(1-3) rhe_near [OF assms(4)] assms(5)] .

lemma fl_06: "fl (6 / 10) = Finite (5404319552844595 / 2 ^ 53)"
  using fl_near [of "- 53" "6 / 10" 5404319552844595] by simp

lemma fl_03: "fl (3 / 10) = Finite (5404319552844595 / 2 ^ 54)"
  using fl_near [of "- 54" "3 / 10" 5404319552844595] by simp

lemma fl_01: "fl (1 / 10) = Finite (3602879701896397 / 2 ^ 55)"
  using fl_near [of "- 56" "1 / 10" 7205759403792794] by simp

lemma fl_3500_06: "fl (3500 * (5404319552844595 / 2 ^ 53)) = Finite 2100"
  using fl_near [of "- 41" "3500 * (5404319552844595 / 2 ^ 53)" "2100 * 2 ^ 41"] by simp


lemma ulp_exp_mid:
  assumes "1 / 16 \<le> x" "x < 2 ^ 53"
  shows "- 56 \<le> ulp_exp x" "ulp_exp x \<le> 0"
    and "2 powi ulp_exp x * 2 ^ 52 \<le> x" "x < 2 powi ulp_exp x * 2 ^ 53"
proof -
  have x: "0 < x" using assms(1) by simp
  have "(2::rat) powi (- 4) < 2 powi (ilog2 x + 1)" using ilog2_bounds(2) [OF x] assms(1) by simp
  then have k1: "- 4 \<le> ilog2 x" using powi_less_cancel by fastforce
  have "(2::rat) powi ilog2 x < 2 powi 53" using ilog2_bounds(1) [OF x] assms(2) by simp
  then have k2: "ilog2 x \<le> 52" using powi_less_cancel by fastforce
  have e: "ulp_exp x = ilog2 x - 52" using k1 by (simp add: ulp_exp_def)
  show "- 56 \<le> ulp_exp x" "ulp_exp x \<le> 0" using k1 k2 e by simp_all
  have "(2::rat) powi ulp_exp x * 2 ^ 52 = 2 powi (ulp_exp x + 52)" by (simp add: powi_split)
  then show "2 powi ulp_exp x * 2 ^ 52 \<le> x" using ilog2_bounds(1) [OF x] e by simp
  have "(2::rat) powi ulp_exp x * 2 ^ 53 = 2 powi (ulp_exp x + 53)" by (simp add: powi_split)
  moreover have "ulp_exp x + 53 = ilog2 x + 1" using e by simp
  ultimately show "x < 2 powi ulp_exp x * 2 ^ 53" using ilog2_bounds(2) [OF x] by simp
qed

lemma int_on_grid:
  assumes "e \<le> 0"
  shows "of_int q / (2::rat) powi e = of_int (q * 2 ^ nat (- e))"
proof -
  have "(2::rat) powi e = 1 / 2 ^ nat (- e)" using powi_neg_nat [of "- e"] assms by simp
  then show ?thesis by simp
qed

lemma round_pos_int:
  assumes "1 \<le> n" "n < 2 ^ 53"
  shows "round_pos (of_int n) = of_int n"
proof -
  have "(1::rat) / 16 \<le> of_int n" using assms(1) by simp
  moreover have "(of_int n :: rat) < of_int (2 ^ 53)" using assms(2) by (simp only: of_int_less_iff)
  then have "(of_int n :: rat) < 2 ^ 53" by simp
  ultimately have e: "ulp_exp (of_int n) \<le> 0" by (rule ulp_exp_mid(2))
  let ?u = "(2::rat) powi ulp_exp (of_int n)"
  have g: "of_int n / ?u = of_int (n * 2 ^ nat (- ulp_exp (of_int n)))"
    using e by (rule int_on_grid)
  have "round_pos (of_int n) = of_int (round_half_even (of_int n / ?u)) * ?u"
    by (simp add: round_pos_def)
  also have "\<dots> = of_int n / ?u * ?u" unfolding g rhe_of_int ..
  also have "\<dots> = of_int n" by simp
  finally show ?thesis .
qed

lemma fl_int_exact:
  assumes "\<bar>n\<bar> < 2 ^ 53"
  shows "fl (of_int n) = Finite (of_int n)"
proof -
  have pos: "fl (of_int m) = Finite (of_int m)" if "1 \<le> m" "m < 2 ^ 53" for m
  proof -
    have "(of_int m :: rat) < of_int (2 ^ 53)" using that(2) by (simp only: of_int_less_iff)
    then have "(of_int m :: rat) < 2 ^ 1024" by simp
    then show ?thesis using that round_pos_int [OF that] by (simp add: fl_def)
  qed
  consider "n = 0" | "1 \<le> n" | "1 \<le> - n" by linarith
  then show ?thesis
  proof cases
    case 1
    then show ?thesis by (simp add: fl_def)
  next
    case 2
    then show ?thesis using pos [of n] assms by simp
  next
    case 3
    then have "fl (of_int (- n)) = Finite (of_int (- n))" using pos [of "- n"] assms by simp
    then show ?thesis using fl_minus [of "of_int n"] by (cases "fl (of_int n)") simp_all
  qed
qed

lemma fl_bounded_abs:
  assumes "\<bar>x\<bar> \<le> 2 powi j" "- 1074 \<le> j" "j \<le> 1023"
  shows "\<exists>v. fl x = Finite v \<and> \<bar>v\<bar> \<le> 2 powi j \<and> (0 \<le> x \<longrightarrow> 0 \<le> v) \<and> (x \<le> 0 \<longrightarrow> v \<le> 0)"
proof (cases "0 \<le> x")
  case True
  then show ?thesis using fl_bounded [of x j] assms by (cases "x = 0") (auto simp: fl_def)
next
  case False
  then have "0 \<le> - x" "- x \<le> 2 powi j" using assms(1) by simp_all
  from fl_bounded [OF this assms(2,3)] obtain v where v: "fl (- x) = Finite v" "0 \<le> v" "v \<le> 2 powi j"
    by blast
  then have "fl x = Finite (- v)" using fl_minus [of x] by (cases "fl x") simp_all
  then show ?thesis using v False by simp
qed

lemma fl_between:
  assumes "1 / 16 \<le> x" "x < 2 ^ 53"
    and "of_int q \<le> x + x / 2 ^ 54" "x + x / 2 ^ 53 < of_int q + 1"
  shows "\<exists>v. fl x = Finite v \<and> of_int q \<le> v \<and> v < of_int q + 1"
proof -
  define u where "u = (2::rat) powi ulp_exp x"
  define y where "y = x / u"
  define m where "m = round_half_even y"
  have x: "0 < x" using assms(1) by simp
  have u: "0 < u" by (simp add: u_def)
  have e: "ulp_exp x \<le> 0" using assms(1,2) by (rule ulp_exp_mid(2))
  have u1: "u * 2 ^ 52 \<le> x" and u2: "x < u * 2 ^ 53"
    using ulp_exp_mid(3,4) [OF assms(1,2)] by (simp_all add: u_def)
  have g: "of_int k / u = of_int (k * 2 ^ nat (- ulp_exp x))" for k
    unfolding u_def using e by (rule int_on_grid)
  have "of_int q - u / 2 < x" using assms(3) u2 by (simp add: field_simps)
  then have "(of_int q - u / 2) / u < x / u" using u by (rule divide_strict_right_mono)
  moreover have "(of_int q - u / 2) / u = of_int q / u - 1 / 2" using u by (simp add: diff_divide_distrib)
  ultimately have "of_int q / u - 1 / 2 < y" by (simp add: y_def)
  then have "q * 2 ^ nat (- ulp_exp x) \<le> m" unfolding m_def g by (rule rhe_ge)
  then have "(of_int (q * 2 ^ nat (- ulp_exp x)) :: rat) \<le> of_int m" by (simp only: of_int_le_iff)
  then have "of_int q / u \<le> of_int m" by (simp only: g)
  then have lo: "of_int q \<le> of_int m * u" using u by (simp add: field_simps)
  have "x + u / 2 < of_int (q + 1)" using assms(4) u1 by (simp add: field_simps)
  then have "(x + u / 2) / u < of_int (q + 1) / u" using u by (rule divide_strict_right_mono)
  moreover have "(x + u / 2) / u = x / u + 1 / 2" using u by (simp add: add_divide_distrib)
  ultimately have "y < of_int (q + 1) / u - 1 / 2" by (simp add: y_def)
  then have "m < (q + 1) * 2 ^ nat (- ulp_exp x)" unfolding m_def g by (rule rhe_lt)
  then have "(of_int m :: rat) < of_int ((q + 1) * 2 ^ nat (- ulp_exp x))" by (simp only: of_int_less_iff)
  then have "of_int m < of_int (q + 1) / u" by (simp only: g)
  then have hi: "of_int m * u < of_int q + 1" using u by (simp add: field_simps)
  have r: "round_pos x = of_int m * u" by (simp add: round_pos_def m_def y_def u_def)
  have "of_int q < (2::rat) ^ 54" using assms(2,3) by (simp add: field_simps)
  then have "of_int q < (of_int (2 ^ 54) :: rat)" by simp
  then have "q < 2 ^ 54" by (simp only: of_int_less_iff)
  then have "q + 1 \<le> 2 ^ 54" by simp
  then have "(of_int (q + 1) :: rat) \<le> of_int (2 ^ 54)" by (simp only: of_int_le_iff)
  then have "of_int q + 1 \<le> (2::rat) ^ 54" by simp
  also have "\<dots> < 2 ^ 1024" by simp
  finally have "round_pos x < 2 ^ 1024" using hi r by simp
  then show ?thesis using fl_pos_finite [OF x] lo hi r by simp
qed

section \<open>The orchestrator: failures\<close>

lemma create_campaign_sent:
  "snd (create_campaign env today cfg sent) =
     sent @ [\<lparr>api_service = ''campaigns'', api_method = ''add'', params = campaign_payload today cfg\<rparr>]"
  by (simp add: create_campaign_def make_request_def Let_def split: http_outcome.splits option.splits)

lemma create_ad_groups_sent:
  "snd (create_ad_groups env cid gs sent) =
     sent @ [\<lparr>api_service = ''adgroups'', api_method = ''add'', params = AdGroups_params (map (ad_group_of cid) gs)\<rparr>]"
  by (simp add: create_ad_groups_def make_request_def Let_def split: http_outcome.splits option.splits)

text \<open>
  Claim C2. When the creation of the campaign, the root resource, fails (the request
  raises, the answer has no \<^verbatim>\<open>AddResults\<close> or carries errors, or it holds no id, so
  that \<^verbatim>\<open>campaign_ids[0]\<close> raises), the run raises, and the only request ever sent is the
  one that tried to create the campaign: no ad group, keyword or ad is attempted, and no
  id of one is returned.
\<close>

theorem root_failure:
  assumes "campaign_failed env today strategy"
  shows "(\<exists>e. fst (create_full_campaign_from_strategy env today now strategy) = Inl e)
     \<and> snd (create_full_campaign_from_strategy env today now strategy) = [campaign_request today strategy]"
proof -
  let ?cfg = "get_or (campaign strategy) empty_campaign_config"
  obtain r s where c: "create_campaign env today ?cfg [] = (r, s)"
    by (cases "create_campaign env today ?cfg []")
  have s: "s = [campaign_request today strategy]"
    using create_campaign_sent [of env today ?cfg "[]"] c by (simp add: campaign_request_def)
  show ?thesis
  proof (cases r)
    case (Inl e)
    then show ?thesis using c s by (simp add: create_full_campaign_from_strategy_def)
  next
    case (Inr p)
    then have "fst p = []" using assms c by (simp add: campaign_failed_def split: prod.splits)
    then show ?thesis using c s Inr
      by (cases p) (simp add: create_full_campaign_from_strategy_def)
  qed
qed


text \<open>Witness for C2: the transport fails on the first request.\<close>

theorem root_failure_witness:
  "campaign_failed (\<lambda>sent req. Transport_failure) ''2025-01-01'' two_groups
   \<and> fst (create_full_campaign_from_strategy (\<lambda>sent req. Transport_failure) ''2025-01-01'' ''t'' two_groups) = Inl TransportError
   \<and> snd (create_full_campaign_from_strategy (\<lambda>sent req. Transport_failure) ''2025-01-01'' ''t'' two_groups) =
       [campaign_request ''2025-01-01'' two_groups]"
proof -
  have h: "campaign_failed (\<lambda>sent req. Transport_failure) ''2025-01-01'' two_groups"
    by (simp add: campaign_failed_def create_campaign_def make_request_def)
  have "fst (create_full_campaign_from_strategy (\<lambda>sent req. Transport_failure) ''2025-01-01'' ''t'' two_groups) = Inl TransportError"
    by (simp add: create_full_campaign_from_strategy_def create_campaign_def make_request_def)
  then show ?thesis using h root_failure [OF h, of "''t''"] by simp
qed




section \<open>Keyword suggestions and the semantic core\<close>

lemma unreachable_suggestions:
  "get_keyword_suggestions unreachable_platform base_keywords region_ids sent =
     ([], sent @ [\<lparr>api_service = ''keywordsresearch'', api_method = ''get'',
        params = KeywordsByKeyword_params (take 10 base_keywords) (get_or region_ids [225])\<rparr>])"
  by (simp add: get_keyword_suggestions_def make_request_def unreachable_platform_def)

text \<open>
  Claim C9 at its failing input: the platform cannot be reached. The client swallows the
  exception and returns the empty list, the \<^verbatim>\<open>except\<close> clause of the manager that
  builds the fallback from the base keywords is not entered, and the result is empty
  whatever the base keywords are, while the fallback list of a non-empty list of base
  keywords is not empty.
\<close>

theorem remote_failure_gives_empty_suggestions:
  "fst (get_yandex_keyword_suggestions unreachable_platform (k # ks) sent) = []
   \<and> map fallback_suggestion (take 5 (k # ks)) \<noteq> []"
  by (simp add: get_yandex_keyword_suggestions_def unreachable_suggestions)











text \<open>
  Claim C8 at its failing input: a text without braces. Parsing gives the empty
  dictionary, whatever \<^verbatim>\<open>json.loads\<close> is, and the construction of the semantic core
  raises \<^verbatim>\<open>KeyError\<close> on its first subscription.
\<close>

theorem parse_failure_crashes_core:
  "safe_json_parse loads ''I cannot produce the keywords.'' = JObj []
   \<and> fst (create_semantic_core_with_yandex loads (Inr ''I cannot produce the keywords.'') env keywords sent)
       = Inl (KeyError ''high_priority'')"
  by (simp add: create_semantic_core_with_yandex_def generate_ai_keywords_def safe_json_parse_def
      json_match_def then_do_def split: prod.splits)

section \<open>The budget split\<close>

lemma tier_budget_eq:
  assumes "fl share = Finite c" "\<bar>b\<bar> < 2 ^ 53"
  shows "tier_budget b share = py_int (PFloat (fl (of_int b * c)))"
  using assms fl_int_exact [OF assms(2)]
  by (simp add: tier_budget_def float_literal_def then_do_def float_of_int_def)

lemma py_int_floor:
  assumes "fl x = Finite v" "of_int q \<le> v" "v < of_int q + 1" "0 \<le> q"
  shows "py_int (PFloat (fl x)) = Inr q"
proof -
  have "(0::rat) \<le> of_int q" using assms(4) by simp
  then have "0 \<le> v" using assms(2) by linarith
  moreover have "\<lfloor>v\<rfloor> = q" using assms(2,3) by (intro floor_unique) simp_all
  ultimately show ?thesis using assms(1) by simp
qed

lemma tier_budget_pos:
  assumes "fl share = Finite c" "0 < b" "b < 2 ^ 53" "0 \<le> q"
    and "1 / 16 \<le> of_int b * c" "of_int b * c < 2 ^ 53"
    and "of_int q \<le> of_int b * c + of_int b * c / 2 ^ 54"
    and "of_int b * c + of_int b * c / 2 ^ 53 < of_int q + 1"
  shows "tier_budget b share = Inr q"
proof -
  from fl_between [OF assms(5-8)] obtain v where
    v: "fl (of_int b * c) = Finite v" "of_int q \<le> v" "v < of_int q + 1" by blast
  have "\<bar>b\<bar> < 2 ^ 53" using assms(2,3) by simp
  then show ?thesis using tier_budget_eq [OF assms(1)] py_int_floor [OF v assms(4)] by simp
qed

lemma int_bounds_rat:
  fixes b :: int
  assumes "0 < b" "b \<le> 2 ^ 52"
  shows "(1::rat) \<le> of_int b" "(of_int b :: rat) \<le> 2 ^ 52"
proof -
  show "(1::rat) \<le> of_int b" using assms(1) by simp
  have "(of_int b :: rat) \<le> of_int (2 ^ 52)" using assms(2) by (simp only: of_int_le_iff)
  then show "(of_int b :: rat) \<le> 2 ^ 52" by simp
qed

lemma div_bounds_rat:
  fixes a :: int
  shows "(of_int (a div 5) :: rat) * 5 \<le> of_int a" "(of_int a :: rat) \<le> of_int (a div 5) * 5 + 4"
    and "(of_int (a div 10) :: rat) * 10 \<le> of_int a" "(of_int a :: rat) \<le> of_int (a div 10) * 10 + 9"
proof -
  have 1: "a div 5 * 5 \<le> a" "a \<le> a div 5 * 5 + 4" "a div 10 * 10 \<le> a" "a \<le> a div 10 * 10 + 9"
    by presburger+
  have "(of_int (a div 5 * 5) :: rat) \<le> of_int a" using 1(1) by (simp only: of_int_le_iff)
  then show "(of_int (a div 5) :: rat) * 5 \<le> of_int a" by simp
  have "(of_int a :: rat) \<le> of_int (a div 5 * 5 + 4)" using 1(2) by (simp only: of_int_le_iff)
  then show "(of_int a :: rat) \<le> of_int (a div 5) * 5 + 4" by simp
  have "(of_int (a div 10 * 10) :: rat) \<le> of_int a" using 1(3) by (simp only: of_int_le_iff)
  then show "(of_int (a div 10) :: rat) * 10 \<le> of_int a" by simp
  have "(of_int a :: rat) \<le> of_int (a div 10 * 10 + 9)" using 1(4) by (simp only: of_int_le_iff)
  then show "(of_int a :: rat) \<le> of_int (a div 10) * 10 + 9" by simp
qed

lemma tier_high:
  assumes "0 < b" "b \<le> 2 ^ 52"
  shows "tier_budget b (6 / 10) = Inr (6 * b div 10)"
proof -
  define q where "q = 3 * b div 5"
  define B :: rat where "B = of_int b"
  define Q :: rat where "Q = of_int q"
  have q: "6 * b div 10 = q" unfolding q_def by presburger
  have B: "1 \<le> B" "B \<le> 2 ^ 52" using int_bounds_rat [OF assms] by (simp_all add: B_def)
  have D: "Q * 5 \<le> 3 * B" "3 * B \<le> Q * 5 + 4"
    using div_bounds_rat(1,2) [of "3 * b"] by (simp_all add: Q_def B_def q_def)
  have q0: "0 \<le> q" using assms(1) by (simp add: q_def)
  have b53: "b < 2 ^ 53" using assms(2) by simp
  have 1: "1 / 16 \<le> B * (5404319552844595 / 2 ^ 53)" using B by simp
  have 2: "B * (5404319552844595 / 2 ^ 53) < 2 ^ 53" using B by simp
  have 3: "Q \<le> B * (5404319552844595 / 2 ^ 53) + B * (5404319552844595 / 2 ^ 53) / 2 ^ 54"
    using B D by simp
  have 4: "B * (5404319552844595 / 2 ^ 53) + B * (5404319552844595 / 2 ^ 53) / 2 ^ 53 < Q + 1"
    using B D by simp
  show ?thesis
    unfolding q
    by (rule tier_budget_pos [OF fl_06 assms(1) b53 q0])
      (use 1 2 3 4 in \<open>simp_all only: B_def Q_def\<close>)
qed

lemma tier_medium:
  assumes "0 < b" "b \<le> 2 ^ 52"
  shows "tier_budget b (3 / 10) = Inr (3 * b div 10)"
proof -
  define q where "q = 3 * b div 10"
  define B :: rat where "B = of_int b"
  define Q :: rat where "Q = of_int q"
  have B: "1 \<le> B" "B \<le> 2 ^ 52" using int_bounds_rat [OF assms] by (simp_all add: B_def)
  have D: "Q * 10 \<le> 3 * B" "3 * B \<le> Q * 10 + 9"
    using div_bounds_rat(3,4) [of "3 * b"] by (simp_all add: Q_def B_def q_def)
  have q0: "0 \<le> q" using assms(1) by (simp add: q_def)
  have b53: "b < 2 ^ 53" using assms(2) by simp
  have 1: "1 / 16 \<le> B * (5404319552844595 / 2 ^ 54)" using B by simp
  have 2: "B * (5404319552844595 / 2 ^ 54) < 2 ^ 53" using B by simp
  have 3: "Q \<le> B * (5404319552844595 / 2 ^ 54) + B * (5404319552844595 / 2 ^ 54) / 2 ^ 54"
    using B D by simp
  have 4: "B * (5404319552844595 / 2 ^ 54) + B * (5404319552844595 / 2 ^ 54) / 2 ^ 53 < Q + 1"
    using B D by simp
  show ?thesis
    unfolding q_def [symmetric]
    by (rule tier_budget_pos [OF fl_03 assms(1) b53 q0])
      (use 1 2 3 4 in \<open>simp_all only: B_def Q_def\<close>)
qed

lemma tier_low:
  assumes "0 < b" "b \<le> 2 ^ 52"
  shows "tier_budget b (1 / 10) = Inr (b div 10)"
proof -
  define q where "q = b div 10"
  define B :: rat where "B = of_int b"
  define Q :: rat where "Q = of_int q"
  have B: "1 \<le> B" "B \<le> 2 ^ 52" using int_bounds_rat [OF assms] by (simp_all add: B_def)
  have D: "Q * 10 \<le> B" "B \<le> Q * 10 + 9"
    using div_bounds_rat(3,4) [of b] by (simp_all add: Q_def B_def q_def)
  have q0: "0 \<le> q" using assms(1) by (simp add: q_def)
  have b53: "b < 2 ^ 53" using assms(2) by simp
  have 1: "1 / 16 \<le> B * (3602879701896397 / 2 ^ 55)" using B by simp
  have 2: "B * (3602879701896397 / 2 ^ 55) < 2 ^ 53" using B by simp
  have 3: "Q \<le> B * (3602879701896397 / 2 ^ 55) + B * (3602879701896397 / 2 ^ 55) / 2 ^ 54"
    using B D by simp
  have 4: "B * (3602879701896397 / 2 ^ 55) + B * (3602879701896397 / 2 ^ 55) / 2 ^ 53 < Q + 1"
    using B D by simp
  show ?thesis
    unfolding q_def [symmetric]
    by (rule tier_budget_pos [OF fl_01 assms(1) b53 q0])
      (use 1 2 3 4 in \<open>simp_all only: B_def Q_def\<close>)
qed

lemma py_int_finite: "\<exists>n. py_int (PFloat (Finite v)) = Inr n"
  by simp

lemma forecast_total:
  assumes b: "\<bar>budget_daily info\<bar> \<le> 2 ^ 1000"
    and lens: "py_len (high_priority core) = Inr n1" "py_len (medium_priority core) = Inr n2"
      "py_len (low_priority core) = Inr n3"
    and tiers: "tier_budget (budget_daily info) (6 / 10) = Inr h"
      "tier_budget (budget_daily info) (3 / 10) = Inr m"
      "tier_budget (budget_daily info) (1 / 10) = Inr l"
  shows "\<exists>perf. calculate_budget_and_forecast info core =
     Inr (\<lparr>daily_budget = budget_daily info,
            high_priority_percent = 60, medium_priority_percent = 30, low_priority_percent = 10,
            high_priority_budget = h, medium_priority_budget = m, low_priority_budget = l\<rparr>, perf)"
proof -
  define B :: rat where "B = of_int (budget_daily info)"
  have "(of_int \<bar>budget_daily info\<bar> :: rat) \<le> of_int (2 ^ 1000)" using b by (simp only: of_int_le_iff)
  then have B: "\<bar>B\<bar> \<le> 2 powi 1000" by (simp add: B_def)
  from fl_bounded_abs [OF B] obtain B' where
    Bx: "fl B = Finite B'" "\<bar>B'\<bar> \<le> 2 powi 1000" by auto
  have "\<bar>B / 45\<bar> \<le> \<bar>B\<bar>" by simp
  then have "\<bar>B / 45\<bar> \<le> 2 powi 1000" using B by (rule order_trans)
  from fl_bounded_abs [OF this] obtain v1 where
    v1: "fl (B / 45) = Finite v1" "\<bar>v1\<bar> \<le> 2 powi 1000" by auto
  have "\<bar>8 / 100 :: rat\<bar> \<le> 2 powi 0" by simp
  from fl_bounded_abs [OF this] obtain c8 where
    c8: "fl (8 / 100) = Finite c8" "\<bar>c8\<bar> \<le> 2 powi 0" by auto
  have "\<bar>v1 * c8\<bar> \<le> 2 powi 1000 * 1" unfolding abs_mult using v1(2) c8(2) by (intro mult_mono) simp_all
  then have "\<bar>v1 * c8\<bar> \<le> 2 powi 1000" by simp
  from fl_bounded_abs [OF this] obtain v2 where
    v2: "fl (v1 * c8) = Finite v2" "\<bar>v2\<bar> \<le> 2 powi 1000" by auto
  have c8': "float_literal (8 / 100) = PFloat (Finite c8)"
    using c8(1) by (simp only: float_literal_def)
  have conv: "py_mul (PFloat (Finite v1)) (float_literal (8 / 100)) = Inr (PFloat (Finite v2))"
    unfolding c8' by (simp add: then_do_def v2(1))
  have "\<exists>v3. py_truediv (PInt (budget_daily info)) (py_max (PFloat (Finite v2)) (PInt 1)) = Inr (Finite v3)"
  proof (cases "v2 < 1")
    case True
    then show ?thesis using Bx(1) by (simp add: py_max_def B_def)
  next
    case False
    then have v21: "1 \<le> v2" by simp
    have "1 * \<bar>B'\<bar> \<le> v2 * \<bar>B'\<bar>" using v21 by (intro mult_right_mono) simp_all
    then have "\<bar>B'\<bar> / v2 \<le> \<bar>B'\<bar>" using v21 by (simp add: field_simps)
    then have "\<bar>B' / v2\<bar> \<le> \<bar>B'\<bar>" using v21 by simp
    then have "\<bar>B' / v2\<bar> \<le> 2 powi 1000" using Bx(2) by (rule order_trans)
    from fl_bounded_abs [OF this] obtain v3 where "fl (B' / v2) = Finite v3" by auto
    then show ?thesis using False v21 Bx(1)
      by (simp add: py_max_def then_do_def float_of_int_def float_div_def B_def)
  qed
  then obtain v3 where cost: "py_truediv (PInt (budget_daily info)) (py_max (PFloat (Finite v2)) (PInt 1)) = Inr (Finite v3)"
    by blast
  have "fl (of_int 30) = Finite (of_int 30)" by (intro fl_int_exact) simp
  then have f30: "float_of_int 30 = Inr (Finite 30)" by (simp add: float_of_int_def)
  have "\<bar>v2 * 30\<bar> \<le> 2 powi 1000 * 32" unfolding abs_mult using v2(2) by (intro mult_mono) simp_all
  also have "\<dots> = 2 powi 1000 * 2 powi 5" by simp
  also have "\<dots> = 2 powi 1005" using powi_split [of 1000 5] by simp
  finally have "\<bar>v2 * 30\<bar> \<le> 2 powi 1005" .
  from fl_bounded_abs [OF this] obtain v4 where v4: "fl (v2 * 30) = Finite v4" by auto
  have month: "py_mul (PFloat (Finite v2)) (PInt 30) = Inr (PFloat (Finite v4))"
    by (simp add: then_do_def f30 v4)
  have clicks: "py_truediv (PInt (budget_daily info)) (PInt 45) = Inr (Finite v1)"
    using v1(1) by (simp add: B_def)
  show ?thesis
    unfolding calculate_budget_and_forecast_def
    by (simp only: then_do_def lens tiers clicks conv cost month sum.case py_int.simps) blast
qed

lemma floor_share:
  "\<lfloor>of_int b * (6 / 10 :: rat)\<rfloor> = 6 * b div 10"
  "\<lfloor>of_int b * (3 / 10 :: rat)\<rfloor> = 3 * b div 10"
  "\<lfloor>of_int b * (1 / 10 :: rat)\<rfloor> = b div 10"
proof -
  have "of_int b * (6 / 10 :: rat) = of_int (6 * b) / of_int 10" by simp
  then show "\<lfloor>of_int b * (6 / 10 :: rat)\<rfloor> = 6 * b div 10" by (simp only: floor_divide_of_int_eq)
  have "of_int b * (3 / 10 :: rat) = of_int (3 * b) / of_int 10" by simp
  then show "\<lfloor>of_int b * (3 / 10 :: rat)\<rfloor> = 3 * b div 10" by (simp only: floor_divide_of_int_eq)
  have "of_int b * (1 / 10 :: rat) = of_int b / of_int 10" by simp
  then show "\<lfloor>of_int b * (1 / 10 :: rat)\<rfloor> = b div 10" by (simp only: floor_divide_of_int_eq)
qed

text \<open>
  Claim C3, amended. For every daily budget from 1 to \<open>2 ^ 52\<close> (and a semantic core
  whose tiers have a length), the allocation is returned, its shares are 60, 30 and 10
  percent, each tier amount is the floor of the budget times 0.6, 0.3 and 0.1, no amount
  is negative, and the amounts sum to at most the daily budget.
\<close>

theorem budget_split:
  assumes "0 < budget_daily info" "budget_daily info \<le> 2 ^ 52"
    and "py_len (high_priority core) = Inr n1" "py_len (medium_priority core) = Inr n2"
      "py_len (low_priority core) = Inr n3"
  shows "\<exists>alloc perf. calculate_budget_and_forecast info core = Inr (alloc, perf)
     \<and> daily_budget alloc = budget_daily info
     \<and> high_priority_percent alloc = 60 \<and> medium_priority_percent alloc = 30
     \<and> low_priority_percent alloc = 10
     \<and> high_priority_budget alloc = \<lfloor>of_int (budget_daily info) * (6 / 10 :: rat)\<rfloor>
     \<and> medium_priority_budget alloc = \<lfloor>of_int (budget_daily info) * (3 / 10 :: rat)\<rfloor>
     \<and> low_priority_budget alloc = \<lfloor>of_int (budget_daily info) * (1 / 10 :: rat)\<rfloor>
     \<and> 0 \<le> high_priority_budget alloc \<and> 0 \<le> medium_priority_budget alloc
     \<and> 0 \<le> low_priority_budget alloc
     \<and> high_priority_budget alloc + medium_priority_budget alloc + low_priority_budget alloc
         \<le> budget_daily info"
proof -
  let ?b = "budget_daily info"
  have "\<bar>?b\<bar> \<le> 2 ^ 52" using assms(1,2) by simp
  also have "\<dots> \<le> (2::int) ^ 1000" by simp
  finally have big: "\<bar>?b\<bar> \<le> 2 ^ 1000" .
  from forecast_total [OF big assms(3-5) tier_high [OF assms(1,2)] tier_medium [OF assms(1,2)]
      tier_low [OF assms(1,2)]]
  obtain perf where r: "calculate_budget_and_forecast info core =
     Inr (\<lparr>daily_budget = ?b,
            high_priority_percent = 60, medium_priority_percent = 30, low_priority_percent = 10,
            high_priority_budget = 6 * ?b div 10, medium_priority_budget = 3 * ?b div 10,
            low_priority_budget = ?b div 10\<rparr>, perf)" by blast
  have nonneg: "0 \<le> 6 * ?b div 10" "0 \<le> 3 * ?b div 10" "0 \<le> ?b div 10"
    using assms(1) by simp_all
  have total: "6 * ?b div 10 + 3 * ?b div 10 + ?b div 10 \<le> ?b" by presburger
  show ?thesis
    unfolding r floor_share using nonneg total by simp
qed

text \<open>Witness for C3, amended: the scenario of the specification, 3500 a day.\<close>

theorem budget_split_witness:
  "\<exists>alloc perf. calculate_budget_and_forecast (budget_of 3500) tiers_5_3_2 = Inr (alloc, perf)
     \<and> daily_budget alloc = 3500
     \<and> high_priority_budget alloc = 2100 \<and> medium_priority_budget alloc = 1050
     \<and> low_priority_budget alloc = 350
     \<and> high_priority_budget alloc + medium_priority_budget alloc + low_priority_budget alloc = 3500"
proof -
  have b: "budget_daily (budget_of 3500) = 3500" by (simp add: budget_of_def)
  have 1: "0 < budget_daily (budget_of 3500)" "budget_daily (budget_of 3500) \<le> 2 ^ 52"
    unfolding b by simp_all
  have 2: "py_len (high_priority tiers_5_3_2) = Inr 5" "py_len (medium_priority tiers_5_3_2) = Inr 3"
    "py_len (low_priority tiers_5_3_2) = Inr 2" by (simp_all add: tiers_5_3_2_def)
  from budget_split [OF 1 2] show ?thesis unfolding b by auto
qed

lemma float_of_huge: "float_of_int 23123095521776135 = Inr (Finite 23123095521776136)"
proof -
  have "fl 23123095521776135 = Finite 23123095521776136"
    using fl_near [of 2 23123095521776135 5780773880444034] by simp
  then show ?thesis by (simp add: float_of_int_def)
qed

lemma huge_high: "tier_budget 23123095521776135 (6 / 10) = Inr 13873857313065682"
proof -
  have "fl (23123095521776136 * (5404319552844595 / 2 ^ 53)) = Finite 13873857313065682"
    using fl_near [of 1 "23123095521776136 * (5404319552844595 / 2 ^ 53)" 6936928656532841] by simp
  then show ?thesis
    unfolding tier_budget_def float_literal_def fl_06
    by (simp add: then_do_def float_of_huge)
qed

lemma huge_medium: "tier_budget 23123095521776135 (3 / 10) = Inr 6936928656532841"
proof -
  have "fl (23123095521776136 * (5404319552844595 / 2 ^ 54)) = Finite 6936928656532841"
    using fl_near [of 0 "23123095521776136 * (5404319552844595 / 2 ^ 54)" 6936928656532841] by simp
  then show ?thesis
    unfolding tier_budget_def float_literal_def fl_03
    by (simp add: then_do_def float_of_huge)
qed

lemma huge_low: "tier_budget 23123095521776135 (1 / 10) = Inr 2312309552177613"
proof -
  have "fl (23123095521776136 * (3602879701896397 / 2 ^ 55)) = Finite (4624619104355227 / 2)"
    using fl_near [of "- 1" "23123095521776136 * (3602879701896397 / 2 ^ 55)" 4624619104355227] by simp
  moreover have "\<lfloor>4624619104355227 / 2 :: rat\<rfloor> = 2312309552177613"
    by (rule floor_unique) simp_all
  ultimately show ?thesis
    unfolding tier_budget_def float_literal_def fl_01
    by (simp add: then_do_def float_of_huge)
qed

text \<open>
  Counterexample to C3 as stated: a daily budget of 23123095521776135. The float nearest
  to it is one more, the high and the medium amounts are rounded up, and the three
  amounts sum to the budget plus one; the high amount is not the floor of the budget
  times 0.6.
\<close>

theorem budget_overshoot:
  "budget_allocation_of (budget_of 23123095521776135) tiers_5_3_2 =
     Inr \<lparr>daily_budget = 23123095521776135,
          high_priority_percent = 60, medium_priority_percent = 30, low_priority_percent = 10,
          high_priority_budget = 13873857313065682, medium_priority_budget = 6936928656532841,
          low_priority_budget = 2312309552177613\<rparr>
   \<and> (23123095521776135 :: int) < 13873857313065682 + 6936928656532841 + 2312309552177613
   \<and> (13873857313065682 :: int) \<noteq> \<lfloor>23123095521776135 * (6 / 10 :: rat)\<rfloor>"
proof -
  have b: "budget_daily (budget_of 23123095521776135) = 23123095521776135" by (simp add: budget_of_def)
  have big: "\<bar>budget_daily (budget_of 23123095521776135)\<bar> \<le> 2 ^ 1000" unfolding b by simp
  have lens: "py_len (high_priority tiers_5_3_2) = Inr 5" "py_len (medium_priority tiers_5_3_2) = Inr 3"
    "py_len (low_priority tiers_5_3_2) = Inr 2" by (simp_all add: tiers_5_3_2_def)
  from forecast_total [OF big lens, unfolded b, OF huge_high huge_medium huge_low]
  obtain perf where "calculate_budget_and_forecast (budget_of 23123095521776135) tiers_5_3_2 =
     Inr (\<lparr>daily_budget = 23123095521776135,
          high_priority_percent = 60, medium_priority_percent = 30, low_priority_percent = 10,
          high_priority_budget = 13873857313065682, medium_priority_budget = 6936928656532841,
          low_priority_budget = 2312309552177613\<rparr>, perf)" by blast
  then show ?thesis by (simp add: budget_allocation_of_def then_do_def)
qed


section \<open>Budgets that are not positive\<close>









section \<open>Bid optimisation\<close>

lemma lit_12: "float_literal (12 / 10) = PFloat (Finite (5404319552844595 / 2 ^ 52))"
proof -
  have "fl (12 / 10) = Finite (5404319552844595 / 2 ^ 52)"
    using fl_near [of "- 52" "12 / 10" 5404319552844595] by simp
  then show ?thesis by (simp only: float_literal_def)
qed

lemma lit_09: "float_literal (9 / 10) = PFloat (Finite (8106479329266893 / 2 ^ 53))"
proof -
  have "fl (9 / 10) = Finite (8106479329266893 / 2 ^ 53)"
    using fl_near [of "- 53" "9 / 10" 8106479329266893] by simp
  then show ?thesis by (simp only: float_literal_def)
qed

lemma float_of_small: "\<bar>n\<bar> < 2 ^ 53 \<Longrightarrow> float_of_int n = Inr (Finite (of_int n))"
  by (simp add: float_of_int_def fl_int_exact)

lemma fl_nonzero:
  assumes "1 \<le> \<bar>x\<bar>"
  shows "fl x \<noteq> Finite 0"
proof -
  have "(2::rat) powi 0 \<le> \<bar>x\<bar>" using assms by simp
  then have "2 powi 0 \<le> round_pos \<bar>x\<bar>" by (rule round_pos_ge_pow2) simp
  then have "0 < round_pos \<bar>x\<bar>" by simp
  then show ?thesis using assms by (auto simp: fl_def)
qed

lemma convertible_int:
  assumes "convertible (PInt n)"
  shows "\<exists>v. float_of_int n = Inr (Finite v) \<and> (n \<noteq> 0 \<longrightarrow> v \<noteq> 0)"
proof (cases "fl (of_int n)")
  case (Finite v)
  have "v \<noteq> 0" if "n \<noteq> 0"
  proof -
    have "1 \<le> \<bar>n\<bar>" using that by simp
    then have "(1::rat) \<le> \<bar>of_int n\<bar>" by (metis of_int_1 of_int_abs of_int_le_iff)
    then show ?thesis using fl_nonzero [of "of_int n"] Finite by auto
  qed
  then show ?thesis using Finite by (simp add: float_of_int_def)
qed (use assms in \<open>simp_all add: float_of_int_def\<close>)

lemma float_of_100: "float_of_int 100 = Inr (Finite 100)"
  using float_of_small [of 100] by simp

lemma percent_total: "\<exists>p. py_mul (PFloat r) (PInt 100) = Inr p"
  by (simp add: then_do_def float_of_100)

lemma divide_total:
  assumes "y \<noteq> Finite 0"
  shows "\<exists>r. float_div x y = Inr r"
  using assms by (simp add: float_div_def)

lemma rest_total_float:
  assumes "f \<noteq> Finite 0"
  shows "\<exists>p. then_do (py_sub (PFloat w) (PFloat f)) (\<lambda>difference.
           then_do (py_truediv difference (PFloat f)) (\<lambda>ratio.
           then_do (py_mul (PFloat ratio) (PInt 100)) (\<lambda>percent_change.
             Inr (PFloat w, percent_change)))) = Inr (PFloat w, p)"
  using assms by (simp add: then_do_def float_div_def float_of_100)

lemma rest_total_int:
  assumes "float_of_int n = Inr (Finite v)" "v \<noteq> 0"
  shows "\<exists>p. then_do (py_sub (PFloat w) (PInt n)) (\<lambda>difference.
           then_do (py_truediv difference (PInt n)) (\<lambda>ratio.
           then_do (py_mul (PFloat ratio) (PInt 100)) (\<lambda>percent_change.
             Inr (PFloat w, percent_change)))) = Inr (PFloat w, p)"
  using assms by (simp add: then_do_def float_div_def float_of_100)

lemma rebid_rule_total:
  assumes "usable_bid t b" "py_truthy b"
  shows "\<exists>new p. rebid_rule t b = Inr (new, p)"
proof (cases b)
  case (PFloat f)
  then have f: "f \<noteq> Finite 0" using assms(2) by simp
  show ?thesis
    unfolding rebid_rule_def lit_12 lit_09 PFloat
    using f by (auto simp: then_do_def float_div_def float_of_100)
next
  case (PInt n)
  then have n: "n \<noteq> 0" using assms(2) by simp
  show ?thesis
  proof (cases "3 < t \<and> t \<le> 6")
    case True
    have "fl (0 / of_int n) = Finite 0" by (simp add: fl_def)
    then show ?thesis
      unfolding rebid_rule_def PInt
      using True n by (simp add: then_do_def float_of_100)
  next
    case False
    then have "convertible (PInt n)" using assms(1) PInt by (auto simp: usable_bid_def)
    from convertible_int [OF this] n obtain v where v: "float_of_int n = Inr (Finite v)" "v \<noteq> 0"
      by blast
    show ?thesis
      unfolding rebid_rule_def lit_12 lit_09 PInt
      using False v by (auto simp: then_do_def float_div_def float_of_100)
  qed
qed

lemma rebid_rule_zero:
  assumes "\<not> py_truthy b"
  shows "rebid_rule t b = Inl ZeroDivisionError"
proof (cases b)
  case (PFloat f)
  then have f: "f = Finite 0" using assms by simp
  have z: "fl 0 = Finite 0" by (simp add: fl_def)
  show ?thesis
    unfolding rebid_rule_def lit_12 lit_09 PFloat f
    by (simp add: then_do_def float_div_def z)
next
  case (PInt n)
  then have n: "n = 0" using assms by simp
  have z: "fl 0 = Finite 0" by (simp add: fl_def)
  have c: "float_of_int 0 = Inr (Finite 0)" by (simp add: float_of_int_def z)
  show ?thesis
    unfolding rebid_rule_def lit_12 lit_09 PInt n
    by (simp add: then_do_def float_div_def z c)
qed

lemma optimize_one_rule:
  "optimize_one t kd =
     then_do (rebid_rule t (bid_of kd)) (\<lambda>result.
       Inr \<lparr>ob_keyword = keyword_text_of kd, old_bid = bid_of kd, new_bid = fst result,
            change_percent = snd result\<rparr>)"
  unfolding optimize_one_def rebid_rule_def bid_of_def keyword_text_of_def Let_def then_do_def
  by (simp split: sum.splits)

lemma rebid_50_top:
  "rebid_rule 1 (PInt 50) = Inr (PFloat (Finite 60), PFloat (Finite 20))"
proof -
  have a: "fl (50 * (5404319552844595 / 2 ^ 52)) = Finite 60"
    using fl_near [of "- 47" "50 * (5404319552844595 / 2 ^ 52)" "60 * 2 ^ 47"] by simp
  have b: "fl 10 = Finite 10" using fl_int_exact [of 10] by simp
  have c: "fl (1 / 5) = Finite (3602879701896397 / 2 ^ 54)"
    using fl_near [of "- 55" "1 / 5" 7205759403792794] by simp
  have d: "fl (3602879701896397 / 2 ^ 54 * 100) = Finite 20"
    using fl_near [of "- 48" "3602879701896397 / 2 ^ 54 * 100" "20 * 2 ^ 48"] by simp
  have f50: "float_of_int 50 = Inr (Finite 50)" using float_of_small [of 50] by simp
  show ?thesis
    unfolding rebid_rule_def lit_12
    using a b c d by (simp add: then_do_def float_div_def float_of_100 f50)
qed

lemma rebid_50_low:
  "rebid_rule 8 (PInt 50) = Inr (PFloat (Finite 45), PFloat (Finite (- 10)))"
proof -
  have a: "fl (50 * (8106479329266893 / 2 ^ 53)) = Finite 45"
    using fl_near [of "- 47" "50 * (8106479329266893 / 2 ^ 53)" "45 * 2 ^ 47"] by simp
  have b: "fl (- 5) = Finite (- 5)" using fl_int_exact [of "- 5"] by simp
  have c: "fl (- (1 / 10)) = Finite (- (3602879701896397 / 2 ^ 55))"
    using fl_minus [of "1 / 10"] fl_01 by simp
  have "fl (3602879701896397 / 2 ^ 55 * 100) = Finite 10"
    using fl_near [of "- 49" "3602879701896397 / 2 ^ 55 * 100" "10 * 2 ^ 49"] by simp
  then have d: "fl (- (3602879701896397 / 2 ^ 55 * 100)) = Finite (- 10)"
    using fl_minus [of "3602879701896397 / 2 ^ 55 * 100"] by simp
  have f50: "float_of_int 50 = Inr (Finite 50)" using float_of_small [of 50] by simp
  show ?thesis
    unfolding rebid_rule_def lit_09
    using a b c d by (simp add: then_do_def float_div_def float_of_100 f50)
qed

lemma optimize_all_ok:
  assumes "\<forall>kd \<in> set kbs. usable_bid t (bid_of kd) \<and> py_truthy (bid_of kd)"
  shows "\<exists>out. optimize_keyword_bids kbs t = Inr out
     \<and> list_all2 (\<lambda>kd entry. ob_keyword entry = keyword_text_of kd \<and> old_bid entry = bid_of kd
          \<and> rebid_rule t (bid_of kd) = Inr (new_bid entry, change_percent entry)) kbs out"
  using assms
proof (induction kbs)
  case Nil
  then show ?case by simp
next
  case (Cons kd kbs)
  then obtain out where out: "optimize_keyword_bids kbs t = Inr out"
    "list_all2 (\<lambda>kd entry. ob_keyword entry = keyword_text_of kd \<and> old_bid entry = bid_of kd
          \<and> rebid_rule t (bid_of kd) = Inr (new_bid entry, change_percent entry)) kbs out"
    by auto
  from Cons.prems have "usable_bid t (bid_of kd)" "py_truthy (bid_of kd)" by simp_all
  from rebid_rule_total [OF this] obtain new p where r: "rebid_rule t (bid_of kd) = Inr (new, p)"
    by blast
  show ?case
    using out r by (simp add: optimize_one_rule then_do_def)
qed


lemma optimize_single:
  assumes "rebid_rule t b = Inr (new, p)"
  shows "optimize_keyword_bids [bid_entry k b] t =
     Inr [\<lparr>ob_keyword = k, old_bid = b, new_bid = new, change_percent = p\<rparr>]"
  using assms
  by (simp add: optimize_one_rule then_do_def bid_entry_def bid_of_def keyword_text_of_def get_or_def)

text \<open>
  Counterexample to C7 as stated: an entry whose bid is 0, at target rank 1. No new bid is
  produced, the operation raises.
\<close>

theorem zero_bid_raises:
  "optimize_keyword_bids [bid_entry ''divan'' (PInt 0)] 1 = Inl ZeroDivisionError"
  by (simp add: optimize_one_rule then_do_def rebid_rule_zero bid_entry_def bid_of_def get_or_def)

text \<open>
  Claim C7, amended. For every list whose bids are not zero (and, unless the target rank
  is 4 to 6, whose integer bids convert to float) and every integer target rank, the
  operation returns one entry for each input entry, with its keyword, its old bid, and the
  new bid and percent change of the rule: up to rank 3 the bid times 1.2, up to rank 6 the
  bid unchanged, else the bid times 0.9, and the percent change (new - old) / old * 100.
  In particular rank 1 and bid 50 give 60.0 and 20.0, rank 8 and bid 50 give 45.0 and -10.0.
\<close>

theorem rebid_rule_applied:
  assumes "\<forall>kd \<in> set kbs. usable_bid t (bid_of kd) \<and> py_truthy (bid_of kd)"
  shows "(\<exists>out. optimize_keyword_bids kbs t = Inr out
       \<and> list_all2 (\<lambda>kd entry. ob_keyword entry = keyword_text_of kd \<and> old_bid entry = bid_of kd
            \<and> rebid_rule t (bid_of kd) = Inr (new_bid entry, change_percent entry)) kbs out)
     \<and> optimize_keyword_bids [bid_entry k (PInt 50)] 1 =
         Inr [\<lparr>ob_keyword = k, old_bid = PInt 50, new_bid = PFloat (Finite 60),
               change_percent = PFloat (Finite 20)\<rparr>]
     \<and> optimize_keyword_bids [bid_entry k (PInt 50)] 8 =
         Inr [\<lparr>ob_keyword = k, old_bid = PInt 50, new_bid = PFloat (Finite 45),
               change_percent = PFloat (Finite (- 10))\<rparr>]"
  using optimize_all_ok [OF assms] optimize_single [OF rebid_50_top] optimize_single [OF rebid_50_low]
  by simp

lemma usable_50: "usable_bid t (PInt 50)" "py_truthy (PInt 50)"
  using float_of_small [of 50] by (simp_all add: usable_bid_def)

text \<open>Witness for C7, amended: one entry with bid 50, target rank 1.\<close>

theorem rebid_rule_applied_witness:
  "(\<exists>out. optimize_keyword_bids [bid_entry ''divan'' (PInt 50)] 1 = Inr out
       \<and> list_all2 (\<lambda>kd entry. ob_keyword entry = keyword_text_of kd \<and> old_bid entry = bid_of kd
            \<and> rebid_rule 1 (bid_of kd) = Inr (new_bid entry, change_percent entry))
            [bid_entry ''divan'' (PInt 50)] out)
   \<and> optimize_keyword_bids [bid_entry ''divan'' (PInt 50)] 1 =
         Inr [\<lparr>ob_keyword = ''divan'', old_bid = PInt 50, new_bid = PFloat (Finite 60),
               change_percent = PFloat (Finite 20)\<rparr>]"
proof -
  have h: "\<forall>kd \<in> set [bid_entry ''divan'' (PInt 50)]. usable_bid 1 (bid_of kd) \<and> py_truthy (bid_of kd)"
    using usable_50(1) [of 1] usable_50(2) by (simp add: bid_entry_def bid_of_def get_or_def)
  from rebid_rule_applied [OF h, of "''divan''"] show ?thesis by blast
qed






end
